theory Spec2Isabelle
  imports Complex_Main
begin

section \<open>Data model (src/types.ts)\<close>

text \<open>
  The interfaces of \<^verbatim>\<open>types.ts\<close> as records. Field names that would clash between
  records carry a short prefix: \<^verbatim>\<open>id\<close> is \<open>vid\<close> on an ImageAsset, \<open>sid\<close> on a Shot and
  \<open>pid\<close> on a Project; the \<^verbatim>\<open>createdAt\<close> of an ImageAsset is \<open>vCreatedAt\<close>.

  A field is an \<open>option\<close> where \<^verbatim>\<open>types.ts\<close> marks it optional or where \<^verbatim>\<open>App.tsx\<close>
  probes it for absence at run time (\<^verbatim>\<open>s.imageVariations || []\<close>, \<^verbatim>\<open>!shot.settings\<close>,
  \<^verbatim>\<open>!shot.settings.shotType\<close>, \<^verbatim>\<open>project.trashedShots || []\<close>): \<open>None\<close> is the absent
  field. Numbers are exact rationals where the code divides (byte sizes), integers for
  shot numbers and naturals for timestamps. Strings are lists of characters; their
  length is the number of characters, as \<^verbatim>\<open>String.length\<close> is for the ASCII payloads
  of a base64 encoding.
\<close>

record ShotSettings =
  cameraMovement :: "string option"
  shotType :: "string option"
  aspectRatio :: "string option"
  artStyle :: "string option"
  lighting :: "string option"

record ImageAsset =
  vid :: string
  previewUrl :: string
  originalUrl :: string
  previewFileSize :: "rat option"
  originalFileSize :: rat
  vCreatedAt :: nat

record Shot =
  sid :: string
  shotNumber :: int
  description :: string
  visualPrompt :: string
  imageVariations :: "ImageAsset list option"
  selectedVariationId :: "string option"
  imagePreviewUrl :: "string option"
  imageOriginalUrl :: "string option"
  imagePreviewFileSize :: "rat option"
  imageOriginalFileSize :: "rat option"
  imageUrl :: "string option"
  isGeneratingImage :: bool
  isUpdatingPrompt :: bool
  settings :: "ShotSettings option"

record Project =
  pid :: string
  title :: string
  idea :: string
  shots :: "Shot list"
  trashedShots :: "Shot list option"
  createdAt :: nat
  updatedAt :: nat
  isTrashed :: "bool option"

datatype AppView = DASHBOARD | PROJECT_DETAIL

datatype ApiKeyStatus = active | warning | error

text \<open>What a thrown JavaScript exception is in the model.\<close>

datatype exn = TypeError

section \<open>JavaScript primitives used by the code\<close>

text \<open>\<^verbatim>\<open>String.prototype.endsWith\<close>.\<close>

definition endsWith :: "string \<Rightarrow> string \<Rightarrow> bool" where
  "endsWith s t = (length t \<le> length s \<and> drop (length s - length t) s = t)"

text \<open>\<^verbatim>\<open>String.prototype.includes\<close>: the pattern occurs as a contiguous block.\<close>

fun startsWith :: "string \<Rightarrow> string \<Rightarrow> bool" where
  "startsWith s [] = True"
| "startsWith [] (c # p) = False"
| "startsWith (d # s) (c # p) = (d = c \<and> startsWith s p)"

fun includesStr :: "string \<Rightarrow> string \<Rightarrow> bool" where
  "includesStr [] p = (p = [])"
| "includesStr (c # s) p = (startsWith (c # s) p \<or> includesStr s p)"

text \<open>
  \<^verbatim>\<open>String.prototype.toUpperCase\<close> on the ASCII letters; every other character is kept.
\<close>

definition upperChar :: "char \<Rightarrow> char" where
  "upperChar c =
     (case map_of (zip ''abcdefghijklmnopqrstuvwxyz'' ''ABCDEFGHIJKLMNOPQRSTUVWXYZ'') c of
        None \<Rightarrow> c
      | Some u \<Rightarrow> u)"

definition toUpperCase :: "string \<Rightarrow> string" where
  "toUpperCase s = map upperChar s"

text \<open>Truthiness of an optional string and of an optional number.\<close>

definition truthyStr :: "string option \<Rightarrow> bool" where
  "truthyStr x = (case x of None \<Rightarrow> False | Some s \<Rightarrow> s \<noteq> [])"

definition truthyNum :: "rat option \<Rightarrow> bool" where
  "truthyNum x = (case x of None \<Rightarrow> False | Some n \<Rightarrow> n \<noteq> 0)"

text \<open>\<^verbatim>\<open>Array.prototype.map\<close> with a callback that may throw: the first exception wins.\<close>

fun mapE :: "('a \<Rightarrow> exn + 'b) \<Rightarrow> 'a list \<Rightarrow> exn + 'b list" where
  "mapE f [] = Inr []"
| "mapE f (x # xs) =
     (case f x of
        Inl e \<Rightarrow> Inl e
      | Inr y \<Rightarrow> (case mapE f xs of Inl e \<Rightarrow> Inl e | Inr ys \<Rightarrow> Inr (y # ys)))"

section \<open>Image Asset Codec (App.tsx, lines 49-54 and 301-314)\<close>

definition padding :: "string \<Rightarrow> rat" where
  "padding base64String =
     (if endsWith base64String ''=='' then 2
      else if endsWith base64String ''='' then 1
      else 0)"

definition calculateBase64Size :: "string \<Rightarrow> rat" where
  "calculateBase64Size base64String =
     (of_nat (length base64String) * 3 / 4) - padding base64String"

text \<open>
  The size formula as the specification words it: the ceiling of three quarters of the
  encoded length, minus the padding adjustment.
\<close>

definition spec_calculateSize :: "string \<Rightarrow> rat" where
  "spec_calculateSize s = of_int \<lceil>(of_nat (length s) * 3 / 4 :: rat)\<rceil> - padding s"

text \<open>
  \<^verbatim>\<open>processAndSaveImage\<close>. The canvas recompression \<^verbatim>\<open>compressImage\<close>, the identifier
  from \<^verbatim>\<open>uuidv4()\<close> and the reading of \<^verbatim>\<open>Date.now()\<close> come from the browser; they are
  parameters.
\<close>

definition processAndSaveImage ::
  "(string \<Rightarrow> string) \<Rightarrow> string \<Rightarrow> nat \<Rightarrow> string \<Rightarrow> ImageAsset" where
  "processAndSaveImage compressImage newId now base64Original =
     (let originalSize = calculateBase64Size base64Original;
          base64Preview = compressImage base64Original;
          previewSize = calculateBase64Size base64Preview
      in \<lparr> vid = newId, previewUrl = base64Preview, originalUrl = base64Original,
           previewFileSize = Some previewSize, originalFileSize = originalSize,
           vCreatedAt = now \<rparr>)"

section \<open>Application state (App.tsx, lines 67-100)\<close>

text \<open>
  The calls the component makes to its two collaborators are logged in the state, in
  the order they are issued: \<open>aiCalls\<close> for the generative-AI client and \<open>dbCalls\<close>
  for the persistence gateway. What the collaborators answer is a parameter of the
  handler that awaits it.
\<close>

datatype AiCall =
  GenerateScriptBreakdown string
| GenerateShotImage string "ShotSettings option" "string option"
| EditShotImage string string
| RegenerateVisualPrompt string
| GetScriptSuggestions string string

datatype DbCall =
  SaveAllProjects "Project list"
| SaveProject Project
| DeleteProject string

record AppState =
  apiKeyStatus :: ApiKeyStatus
  projects :: "Project list"
  currentView :: AppView
  selectedProjectId :: "string option"
  prevProjectsRef :: "Project list option"
  pendingShotDeletionId :: "string option"
  ideaInput :: string
  isApiBusy :: bool
  apiThrottle :: nat
  rateLimitCooldown :: nat
  globalError :: "string option"
  aiCalls :: "AiCall list"
  dbCalls :: "DbCall list"

text \<open>The settings every new shot starts with (lines 265-271, 610 and 833).\<close>

definition defaultSettings :: ShotSettings where
  "defaultSettings =
     \<lparr> cameraMovement = Some ''Static'', shotType = Some ''Medium Shot'',
       aspectRatio = Some ''16:9'', artStyle = Some ''Cinematic Realistic'',
       lighting = Some ''Natural Daylight'' \<rparr>"

text \<open>\<^verbatim>\<open>Array.prototype.findIndex\<close>; \<open>None\<close> is the result -1.\<close>

fun findIndex :: "('a \<Rightarrow> bool) \<Rightarrow> 'a list \<Rightarrow> nat option" where
  "findIndex P [] = None"
| "findIndex P (x # xs) =
     (if P x then Some 0 else map_option Suc (findIndex P xs))"

text \<open>\<^verbatim>\<open>list.map((shot, index) => ({ ...shot, shotNumber: index + 1 }))\<close>.\<close>

definition renumber :: "Shot list \<Rightarrow> Shot list" where
  "renumber xs =
     map (\<lambda>(index, shot). shot\<lparr>shotNumber := int index + 1\<rparr>) (enumerate 0 xs)"

section \<open>Change-tracking auto-saver (App.tsx, lines 171-204)\<close>

definition changedProjects :: "Project list option \<Rightarrow> Project list \<Rightarrow> Project list" where
  "changedProjects prevProjects ps =
     (case prevProjects of
        None \<Rightarrow> ps
      | Some prev \<Rightarrow>
          filter (\<lambda>project.
                    case find (\<lambda>p. pid p = pid project) prev of
                      None \<Rightarrow> True
                    | Some old \<Rightarrow> updatedAt old \<noteq> updatedAt project) ps)"

text \<open>The body of the timer callback: what runs when the debounce timer fires.\<close>

definition saveTimeout :: "AppState \<Rightarrow> AppState" where
  "saveTimeout st =
     st\<lparr> dbCalls := dbCalls st @ map SaveProject (changedProjects (prevProjectsRef st) (projects st)),
         prevProjectsRef := Some (projects st) \<rparr>"

text \<open>
  The effect arms no timer while the collection is empty; otherwise the timer fires one
  second after the last change.
\<close>

definition autoSaveEffect :: "AppState \<Rightarrow> AppState" where
  "autoSaveEffect st = (if projects st = [] then st else saveTimeout st)"

section \<open>Countdown timers (App.tsx, lines 207-225)\<close>

definition cooldownTick :: "AppState \<Rightarrow> AppState" where
  "cooldownTick st =
     (if rateLimitCooldown st > 0 then st\<lparr>rateLimitCooldown := rateLimitCooldown st - 1\<rparr> else st)"

definition throttleTick :: "AppState \<Rightarrow> AppState" where
  "throttleTick st =
     (if apiThrottle st > 0 then st\<lparr>apiThrottle := apiThrottle st - 1\<rparr> else st)"

section \<open>Project and shot reducer: handlers without an AI call\<close>

text \<open>
  Each handler is the function from the state before to the state after. The reading
  of \<^verbatim>\<open>Date.now()\<close> is the parameter \<open>now\<close>, a fresh \<^verbatim>\<open>uuidv4()\<close> the parameter
  \<open>newId\<close>. Where a handler opens a confirmation dialog, the function is what its
  \<^verbatim>\<open>onConfirm\<close> does. The guard \<^verbatim>\<open>!selectedProjectId\<close> holds for \<^verbatim>\<open>null\<close> and for the
  empty string.
\<close>

definition handleSelectVariation :: "nat \<Rightarrow> string \<Rightarrow> string \<Rightarrow> AppState \<Rightarrow> AppState" where
  "handleSelectVariation now shotId variationId st =
     (if \<not> truthyStr (selectedProjectId st) then st
      else st\<lparr>projects :=
        map (\<lambda>p. if Some (pid p) \<noteq> selectedProjectId st then p
                  else p\<lparr> updatedAt := now,
                          shots := map (\<lambda>s. if sid s = shotId
                                              then s\<lparr>selectedVariationId := Some variationId\<rparr>
                                              else s) (shots p) \<rparr>)
            (projects st)\<rparr>)"

definition handleDeleteProject :: "nat \<Rightarrow> string \<Rightarrow> AppState \<Rightarrow> AppState" where
  "handleDeleteProject now i st =
     (let st' = st\<lparr>projects :=
            map (\<lambda>p. if pid p = i then p\<lparr>isTrashed := Some True, updatedAt := now\<rparr> else p)
                (projects st)\<rparr>
      in if selectedProjectId st = Some i
         then st'\<lparr>selectedProjectId := None, currentView := DASHBOARD\<rparr>
         else st')"

definition handleRestoreProject :: "nat \<Rightarrow> string \<Rightarrow> AppState \<Rightarrow> AppState" where
  "handleRestoreProject now i st =
     st\<lparr>projects :=
        map (\<lambda>p. if pid p = i then p\<lparr>isTrashed := Some False, updatedAt := now\<rparr> else p)
            (projects st)\<rparr>"

definition handlePermanentlyDeleteProject :: "string \<Rightarrow> AppState \<Rightarrow> AppState" where
  "handlePermanentlyDeleteProject i st =
     st\<lparr> projects := filter (\<lambda>p. pid p \<noteq> i) (projects st),
         dbCalls := dbCalls st @ [DeleteProject i] \<rparr>"

definition handleEmptyProjectTrash :: "AppState \<Rightarrow> AppState" where
  "handleEmptyProjectTrash st =
     (let idsToDelete = map pid (filter (\<lambda>p. isTrashed p = Some True) (projects st))
      in st\<lparr> dbCalls := dbCalls st @ map DeleteProject idsToDelete,
             projects := filter (\<lambda>p. isTrashed p \<noteq> Some True) (projects st) \<rparr>)"

definition handleSaveProjectInfo :: "nat \<Rightarrow> string \<Rightarrow> string \<Rightarrow> AppState \<Rightarrow> AppState" where
  "handleSaveProjectInfo now editedTitle editedIdea st =
     (if \<not> truthyStr (selectedProjectId st) then st
      else st\<lparr>projects :=
        map (\<lambda>p. if Some (pid p) = selectedProjectId st
                  then p\<lparr>title := editedTitle, idea := editedIdea, updatedAt := now\<rparr>
                  else p)
            (projects st)\<rparr>)"

definition handleUpdateVisualPrompt :: "nat \<Rightarrow> string \<Rightarrow> string \<Rightarrow> AppState \<Rightarrow> AppState" where
  "handleUpdateVisualPrompt now shotId newPrompt st =
     (if \<not> truthyStr (selectedProjectId st) then st
      else st\<lparr>projects :=
        map (\<lambda>p. if Some (pid p) \<noteq> selectedProjectId st then p
                  else p\<lparr> shots := map (\<lambda>s. if sid s = shotId
                                              then s\<lparr>visualPrompt := newPrompt\<rparr> else s) (shots p),
                          updatedAt := now \<rparr>)
            (projects st)\<rparr>)"

text \<open>
  \<^verbatim>\<open>{ ...s.settings, ...newSettings }\<close> with a partial \<^verbatim>\<open>newSettings\<close>: a field the
  update carries wins, any other field keeps what the shot had, if it had it.
\<close>

definition mergeSettings :: "ShotSettings option \<Rightarrow> ShotSettings \<Rightarrow> ShotSettings" where
  "mergeSettings old new =
     (let pick = (\<lambda>f. case f new of
                         Some v \<Rightarrow> Some v
                       | None \<Rightarrow> (case old of None \<Rightarrow> None | Some q \<Rightarrow> f q))
      in \<lparr> cameraMovement = pick cameraMovement, shotType = pick shotType,
           aspectRatio = pick aspectRatio, artStyle = pick artStyle,
           lighting = pick lighting \<rparr>)"

definition handleUpdateShotSettings ::
  "nat \<Rightarrow> string \<Rightarrow> ShotSettings \<Rightarrow> AppState \<Rightarrow> AppState" where
  "handleUpdateShotSettings now shotId newSettings st =
     (if \<not> truthyStr (selectedProjectId st) then st
      else st\<lparr>projects :=
        map (\<lambda>p. if Some (pid p) \<noteq> selectedProjectId st then p
                  else p\<lparr> shots := map (\<lambda>s. if sid s = shotId
                                              then s\<lparr>settings := Some (mergeSettings (settings s) newSettings)\<rparr>
                                              else s) (shots p),
                          updatedAt := now \<rparr>)
            (projects st)\<rparr>)"

text \<open>
  The placeholder description of an added shot is Vietnamese in the source; each
  character outside ASCII is written \<open>?\<close> here.
\<close>

definition newShot :: "string \<Rightarrow> Shot" where
  "newShot newId =
     \<lparr> sid = newId, shotNumber = 0, description = ''M? t? c?nh quay m?i.'',
       visualPrompt = ''A new scene'', imageVariations = Some [],
       selectedVariationId = None, imagePreviewUrl = None, imageOriginalUrl = None,
       imagePreviewFileSize = None, imageOriginalFileSize = None, imageUrl = None,
       isGeneratingImage = False, isUpdatingPrompt = False,
       settings = Some defaultSettings \<rparr>"

definition addShotAfter :: "string \<Rightarrow> nat \<Rightarrow> string \<Rightarrow> Project \<Rightarrow> Project" where
  "addShotAfter newId now previousShotId project =
     (case findIndex (\<lambda>s. sid s = previousShotId) (shots project) of
        None \<Rightarrow> project
      | Some shotIndex \<Rightarrow>
          (let newShots = take (shotIndex + 1) (shots project) @ [newShot newId]
                            @ drop (shotIndex + 1) (shots project);
               renumberedShots = renumber newShots
           in project\<lparr>shots := renumberedShots, updatedAt := now\<rparr>))"

definition handleAddShotAfter :: "string \<Rightarrow> nat \<Rightarrow> string \<Rightarrow> AppState \<Rightarrow> AppState" where
  "handleAddShotAfter newId now previousShotId st =
     (if \<not> truthyStr (selectedProjectId st) then st
      else st\<lparr>projects :=
        map (\<lambda>project. if Some (pid project) \<noteq> selectedProjectId st then project
                        else addShotAfter newId now previousShotId project)
            (projects st)\<rparr>)"

definition handleInitiateDeleteShot :: "string \<Rightarrow> AppState \<Rightarrow> AppState" where
  "handleInitiateDeleteShot shotId st = st\<lparr>pendingShotDeletionId := Some shotId\<rparr>"

definition handleCancelDeleteShot :: "AppState \<Rightarrow> AppState" where
  "handleCancelDeleteShot st = st\<lparr>pendingShotDeletionId := None\<rparr>"

definition trashShot :: "nat \<Rightarrow> string \<Rightarrow> Project \<Rightarrow> Project" where
  "trashShot now shotId project =
     (case find (\<lambda>s. sid s = shotId) (shots project) of
        None \<Rightarrow> project
      | Some shotToTrash \<Rightarrow>
          (let remainingShots = filter (\<lambda>s. sid s \<noteq> shotId) (shots project);
               renumberedShots = renumber remainingShots;
               updatedTrashedShots =
                 (case trashedShots project of None \<Rightarrow> [] | Some ts \<Rightarrow> ts) @ [shotToTrash]
           in project\<lparr> shots := renumberedShots, trashedShots := Some updatedTrashedShots,
                       updatedAt := now \<rparr>))"

definition handleConfirmDeleteShot :: "nat \<Rightarrow> AppState \<Rightarrow> AppState" where
  "handleConfirmDeleteShot now st =
     (if \<not> truthyStr (pendingShotDeletionId st) \<or> \<not> truthyStr (selectedProjectId st) then st
      else st\<lparr> projects :=
                 map (\<lambda>project. if Some (pid project) \<noteq> selectedProjectId st then project
                                 else trashShot now (the (pendingShotDeletionId st)) project)
                     (projects st),
               pendingShotDeletionId := None \<rparr>)"

text \<open>
  The restored shot is appended and the list sorted by \<open>shotNumber\<close>;
  \<^verbatim>\<open>Array.prototype.sort\<close> is stable, as \<open>sort_key\<close> is.
\<close>

definition restoreShot :: "nat \<Rightarrow> string \<Rightarrow> Project \<Rightarrow> Project" where
  "restoreShot now shotId project =
     (case trashedShots project of
        None \<Rightarrow> project
      | Some ts \<Rightarrow>
          (case find (\<lambda>s. sid s = shotId) ts of
             None \<Rightarrow> project
           | Some shotToRestore \<Rightarrow>
               (let updatedTrashedShots = filter (\<lambda>s. sid s \<noteq> shotId) ts;
                    restoredShotsList = sort_key shotNumber (shots project @ [shotToRestore]);
                    renumberedShots = renumber restoredShotsList
                in project\<lparr> shots := renumberedShots,
                            trashedShots := Some updatedTrashedShots,
                            updatedAt := now \<rparr>)))"

definition handleRestoreShot :: "nat \<Rightarrow> string \<Rightarrow> AppState \<Rightarrow> AppState" where
  "handleRestoreShot now shotId st =
     (if \<not> truthyStr (selectedProjectId st) then st
      else st\<lparr>projects :=
        map (\<lambda>project. if Some (pid project) \<noteq> selectedProjectId st then project
                        else restoreShot now shotId project)
            (projects st)\<rparr>)"

definition handlePermanentlyDeleteShot :: "nat \<Rightarrow> string \<Rightarrow> AppState \<Rightarrow> AppState" where
  "handlePermanentlyDeleteShot now shotId st =
     (if \<not> truthyStr (selectedProjectId st) then st
      else st\<lparr>projects :=
        map (\<lambda>project. if Some (pid project) \<noteq> selectedProjectId st then project
                        else project\<lparr> trashedShots :=
                                        Some (filter (\<lambda>s. sid s \<noteq> shotId)
                                               (case trashedShots project of None \<Rightarrow> [] | Some ts \<Rightarrow> ts)),
                                      updatedAt := now \<rparr>)
            (projects st)\<rparr>)"

definition handleEmptyTrash :: "nat \<Rightarrow> AppState \<Rightarrow> AppState" where
  "handleEmptyTrash now st =
     (if \<not> truthyStr (selectedProjectId st) then st
      else st\<lparr>projects :=
        map (\<lambda>project. if Some (pid project) \<noteq> selectedProjectId st then project
                        else project\<lparr>trashedShots := Some [], updatedAt := now\<rparr>)
            (projects st)\<rparr>)"

section \<open>Rate and throttle controller: error classification (App.tsx, lines 228-244)\<close>

text \<open>
  What a collaborator call settles to: a value, or a rejection carrying
  \<^verbatim>\<open>error?.message\<close>, which may be absent.
\<close>

datatype 'a outcome = Fulfilled 'a | Rejected "string option"

text \<open>
  The two messages the code itself supplies are Vietnamese; each character outside
  ASCII is written \<open>?\<close>. None of the patterns tested below contains such a character.
\<close>

definition unknownErrorMessage :: string where
  "unknownErrorMessage = ''L?i kh?ng x?c ??nh.''"

definition noImageMessage :: string where
  "noImageMessage = ''Kh?ng th? t?o ???c ?nh n?o.''"

definition handleApiError :: "string option \<Rightarrow> AppState \<Rightarrow> AppState" where
  "handleApiError message st =
     (let errorMessage = (case message of
                            None \<Rightarrow> unknownErrorMessage
                          | Some m \<Rightarrow> if m = [] then unknownErrorMessage else m);
          upperMsg = toUpperCase errorMessage
      in if includesStr upperMsg ''429'' \<or> includesStr upperMsg ''RESOURCE_EXHAUSTED''
            \<or> includesStr upperMsg ''RATE LIMIT''
         then st\<lparr>rateLimitCooldown := 60, apiKeyStatus := warning, globalError := None\<rparr>
         else if includesStr upperMsg ''PERMISSION_DENIED'' \<or> includesStr upperMsg ''API_KEY''
                 \<or> includesStr upperMsg ''403''
         then st\<lparr>apiKeyStatus := error, globalError := Some errorMessage\<rparr>
         else st\<lparr>globalError := Some errorMessage\<rparr>)"

text \<open>\<^verbatim>\<open>if (apiKeyStatus === 'warning') setApiKeyStatus('active')\<close>, on the status the handler captured.\<close>

definition resetWarning :: "ApiKeyStatus \<Rightarrow> AppState \<Rightarrow> AppState" where
  "resetWarning captured st = (if captured = warning then st\<lparr>apiKeyStatus := active\<rparr> else st)"

text \<open>The \<^verbatim>\<open>finally\<close> block every AI handler ends with.\<close>

definition finallyThrottle :: "AppState \<Rightarrow> AppState" where
  "finallyThrottle st = st\<lparr>isApiBusy := False, apiThrottle := 3\<rparr>"

section \<open>Project and shot reducer: handlers with an AI call\<close>

text \<open>
  An AI handler runs in two steps around its \<^verbatim>\<open>await\<close>: \<open>_begin\<close> is what it does
  before the collaborator is called, \<open>_settle\<close> what it does once the call has settled,
  on the state of that moment. \<open>_settle\<close> closes over the values the handler read when
  it was invoked (the selected project, the key status). The handler itself is the
  guard followed by both steps with nothing in between. One reading of the clock,
  \<open>now\<close>, stands for the readings of \<^verbatim>\<open>Date.now()\<close> that a step makes.

  A function returns \<open>Inl TypeError\<close> where the JavaScript reads a property of
  \<^verbatim>\<open>undefined\<close> or spreads it into an array.
\<close>

definition isSpace :: "char \<Rightarrow> bool" where
  "isSpace c = (let n = (of_char c :: nat) in n = 32 \<or> (9 \<le> n \<and> n \<le> 13))"

definition trim :: "string \<Rightarrow> string" where
  "trim s = rev (dropWhile isSpace (rev (dropWhile isSpace s)))"

subsection \<open>Create project (lines 246-299)\<close>

record BreakdownShot =
  bShotNumber :: int
  bDescription :: string
  bVisualPrompt :: string

definition handleCreateProject_begin :: "AppState \<Rightarrow> AppState" where
  "handleCreateProject_begin st =
     st\<lparr> isApiBusy := True, globalError := None,
         aiCalls := aiCalls st @ [GenerateScriptBreakdown (ideaInput st)] \<rparr>"

definition handleCreateProject_settle ::
  "string \<Rightarrow> ApiKeyStatus \<Rightarrow> (nat \<Rightarrow> string) \<Rightarrow> string \<Rightarrow> nat
     \<Rightarrow> BreakdownShot list outcome \<Rightarrow> AppState \<Rightarrow> AppState" where
  "handleCreateProject_settle capturedIdea capturedStatus uuidv4 newProjectId now result st =
     finallyThrottle
       (case result of
          Fulfilled shotsData \<Rightarrow>
            (let newShots =
                   map (\<lambda>(k, s).
                          \<lparr> sid = uuidv4 k, shotNumber = bShotNumber s,
                            description = bDescription s, visualPrompt = bVisualPrompt s,
                            imageVariations = Some [], selectedVariationId = None,
                            imagePreviewUrl = None, imageOriginalUrl = None,
                            imagePreviewFileSize = None, imageOriginalFileSize = None,
                            imageUrl = None, isGeneratingImage = False,
                            isUpdatingPrompt = False, settings = Some defaultSettings \<rparr>)
                       (enumerate 0 shotsData);
                 newProject =
                   \<lparr> pid = newProjectId,
                     title = take 30 capturedIdea @ (if length capturedIdea > 30 then ''...'' else []),
                     idea = capturedIdea, shots = newShots, trashedShots = Some [],
                     createdAt = now, updatedAt = now, isTrashed = Some False \<rparr>
             in resetWarning capturedStatus
                  (st\<lparr> projects := newProject # projects st,
                       selectedProjectId := Some newProjectId,
                       currentView := PROJECT_DETAIL, ideaInput := [] \<rparr>))
        | Rejected message \<Rightarrow> handleApiError message st)"

definition handleCreateProject ::
  "(nat \<Rightarrow> string) \<Rightarrow> string \<Rightarrow> nat \<Rightarrow> BreakdownShot list outcome \<Rightarrow> AppState \<Rightarrow> AppState" where
  "handleCreateProject uuidv4 newProjectId now result st =
     (if trim (ideaInput st) = [] \<or> isApiBusy st \<or> apiThrottle st > 0 then st
      else handleCreateProject_settle (ideaInput st) (apiKeyStatus st) uuidv4 newProjectId now result
             (handleCreateProject_begin st))"

subsection \<open>Generate image (lines 316-396)\<close>

text \<open>
  The updater that sets or clears \<open>isGeneratingImage\<close> on one shot of the selected
  project. The code writes it four times: with \<open>True\<close> before the call and with \<open>False\<close>
  in the \<^verbatim>\<open>catch\<close> block, in \<^verbatim>\<open>handleGenerateImage\<close> and in \<^verbatim>\<open>handleEditShotImage\<close>.
\<close>

definition setGenerating :: "string option \<Rightarrow> string \<Rightarrow> bool \<Rightarrow> Project list \<Rightarrow> Project list" where
  "setGenerating sel shotId flag prev =
     map (\<lambda>p. if Some (pid p) \<noteq> sel then p
               else p\<lparr>shots := map (\<lambda>s. if sid s = shotId then s\<lparr>isGeneratingImage := flag\<rparr> else s)
                                  (shots p)\<rparr>)
         prev"

text \<open>
  The updater of the success path: the new variations go in front of the shot's own,
  the first new one is selected and the flag is cleared. \<^verbatim>\<open>handleEditShotImage\<close> runs
  it with a single new variation.
\<close>

definition prependTo :: "ImageAsset list \<Rightarrow> Shot \<Rightarrow> exn + Shot" where
  "prependTo newVariations s =
     (case imageVariations s of
        None \<Rightarrow> Inl TypeError
      | Some old \<Rightarrow>
          (case newVariations of
             [] \<Rightarrow> Inl TypeError
           | v # _ \<Rightarrow> Inr (s\<lparr> imageVariations := Some (newVariations @ old),
                               selectedVariationId := Some (vid v),
                               isGeneratingImage := False \<rparr>)))"

definition addVariations ::
  "string option \<Rightarrow> string \<Rightarrow> nat \<Rightarrow> ImageAsset list \<Rightarrow> Project list \<Rightarrow> exn + Project list" where
  "addVariations sel shotId now newVariations prev =
     mapE (\<lambda>p. if Some (pid p) \<noteq> sel then Inr p
                else (case mapE (\<lambda>s. if sid s \<noteq> shotId then Inr s else prependTo newVariations s)
                                (shots p) of
                        Inl e \<Rightarrow> Inl e
                      | Inr ss \<Rightarrow> Inr (p\<lparr>updatedAt := now, shots := ss\<rparr>)))
          prev"

text \<open>The reference image: a custom upload first, then the selected variation of the reference shot.\<close>

definition resolveReference :: "Project \<Rightarrow> string option \<Rightarrow> string option \<Rightarrow> exn + string option" where
  "resolveReference project referenceShotId customReferenceBase64 =
     (if truthyStr customReferenceBase64 then Inr customReferenceBase64
      else if truthyStr referenceShotId then
        (case find (\<lambda>s. Some (sid s) = referenceShotId) (shots project) of
           None \<Rightarrow> Inr None
         | Some refShot \<Rightarrow>
             if truthyStr (selectedVariationId refShot) then
               (case imageVariations refShot of
                  None \<Rightarrow> Inl TypeError
                | Some vs \<Rightarrow>
                    Inr (map_option originalUrl
                           (find (\<lambda>v. Some (vid v) = selectedVariationId refShot) vs)))
             else Inr None)
      else Inr None)"

definition handleGenerateImage_begin :: "Shot \<Rightarrow> string option \<Rightarrow> string \<Rightarrow> AppState \<Rightarrow> AppState" where
  "handleGenerateImage_begin shot referenceImageUrl shotId st =
     st\<lparr> globalError := None, isApiBusy := True,
         projects := setGenerating (selectedProjectId st) shotId True (projects st),
         aiCalls := aiCalls st
            @ [GenerateShotImage (visualPrompt shot) (settings shot) referenceImageUrl,
               GenerateShotImage (visualPrompt shot) (settings shot) referenceImageUrl] \<rparr>"

definition successfulImages :: "string outcome \<Rightarrow> string outcome \<Rightarrow> string list" where
  "successfulImages result1 result2 =
     (case result1 of Fulfilled v \<Rightarrow> [v] | Rejected _ \<Rightarrow> [])
       @ (case result2 of Fulfilled v \<Rightarrow> [v] | Rejected _ \<Rightarrow> [])"

definition handleGenerateImage_settle ::
  "string option \<Rightarrow> string \<Rightarrow> ApiKeyStatus \<Rightarrow> (string \<Rightarrow> string) \<Rightarrow> (nat \<Rightarrow> string)
     \<Rightarrow> nat \<Rightarrow> string outcome \<Rightarrow> string outcome \<Rightarrow> AppState \<Rightarrow> exn + AppState" where
  "handleGenerateImage_settle sel shotId capturedStatus compressImage uuidv4 now result1 result2 st =
     (if successfulImages result1 result2 = []
      then Inr (finallyThrottle
                  ((handleApiError (Some noImageMessage) st)
                     \<lparr>projects := setGenerating sel shotId False (projects st)\<rparr>))
      else
        (let newVariations =
               map (\<lambda>(k, img). processAndSaveImage compressImage (uuidv4 k) now img)
                   (enumerate 0 (successfulImages result1 result2))
         in case addVariations sel shotId now newVariations (projects st) of
              Inl e \<Rightarrow> Inl e
            | Inr ps \<Rightarrow> Inr (finallyThrottle (resetWarning capturedStatus (st\<lparr>projects := ps\<rparr>)))))"

definition handleGenerateImage ::
  "(string \<Rightarrow> string) \<Rightarrow> (nat \<Rightarrow> string) \<Rightarrow> nat \<Rightarrow> string \<Rightarrow> string option \<Rightarrow> string option
     \<Rightarrow> string outcome \<Rightarrow> string outcome \<Rightarrow> AppState \<Rightarrow> exn + AppState" where
  "handleGenerateImage compressImage uuidv4 now shotId referenceShotId customReferenceBase64
       result1 result2 st =
     (if \<not> truthyStr (selectedProjectId st) \<or> isApiBusy st \<or> apiThrottle st > 0 then Inr st
      else
        (case find (\<lambda>p. Some (pid p) = selectedProjectId st) (projects st) of
           None \<Rightarrow> Inr st
         | Some project \<Rightarrow>
             (case find (\<lambda>s. sid s = shotId) (shots project) of
                None \<Rightarrow> Inr st
              | Some shot \<Rightarrow>
                  (case resolveReference project referenceShotId customReferenceBase64 of
                     Inl e \<Rightarrow> Inl e
                   | Inr referenceImageUrl \<Rightarrow>
                       handleGenerateImage_settle (selectedProjectId st) shotId (apiKeyStatus st)
                         compressImage uuidv4 now result1 result2
                         (handleGenerateImage_begin shot referenceImageUrl shotId st)))))"

subsection \<open>Edit the current image (lines 398-448)\<close>

definition handleEditShotImage_begin :: "ImageAsset \<Rightarrow> string \<Rightarrow> string \<Rightarrow> AppState \<Rightarrow> AppState" where
  "handleEditShotImage_begin currentVariation instruction shotId st =
     st\<lparr> globalError := None, isApiBusy := True,
         projects := setGenerating (selectedProjectId st) shotId True (projects st),
         aiCalls := aiCalls st @ [EditShotImage (originalUrl currentVariation) instruction] \<rparr>"

definition handleEditShotImage_settle ::
  "string option \<Rightarrow> string \<Rightarrow> ApiKeyStatus \<Rightarrow> (string \<Rightarrow> string) \<Rightarrow> string \<Rightarrow> nat
     \<Rightarrow> string outcome \<Rightarrow> AppState \<Rightarrow> exn + AppState" where
  "handleEditShotImage_settle sel shotId capturedStatus compressImage newId now result st =
     (case result of
        Fulfilled editedImageBase64 \<Rightarrow>
          (let newVariation = processAndSaveImage compressImage newId now editedImageBase64
           in case addVariations sel shotId now [newVariation] (projects st) of
                Inl e \<Rightarrow> Inl e
              | Inr ps \<Rightarrow> Inr (finallyThrottle (resetWarning capturedStatus (st\<lparr>projects := ps\<rparr>))))
      | Rejected message \<Rightarrow>
          Inr (finallyThrottle
                 ((handleApiError message st)
                    \<lparr>projects := setGenerating sel shotId False (projects st)\<rparr>)))"

definition handleEditShotImage ::
  "(string \<Rightarrow> string) \<Rightarrow> string \<Rightarrow> nat \<Rightarrow> string \<Rightarrow> string \<Rightarrow> string outcome
     \<Rightarrow> AppState \<Rightarrow> exn + AppState" where
  "handleEditShotImage compressImage newId now shotId instruction result st =
     (if \<not> truthyStr (selectedProjectId st) \<or> isApiBusy st \<or> apiThrottle st > 0 then Inr st
      else
        (case find (\<lambda>p. Some (pid p) = selectedProjectId st) (projects st) of
           None \<Rightarrow> Inr st
         | Some project \<Rightarrow>
             (case find (\<lambda>s. sid s = shotId) (shots project) of
                None \<Rightarrow> Inr st
              | Some shot \<Rightarrow>
                  if \<not> truthyStr (selectedVariationId shot) then Inr st
                  else
                    (case imageVariations shot of
                       None \<Rightarrow> Inl TypeError
                     | Some vs \<Rightarrow>
                         (case find (\<lambda>v. Some (vid v) = selectedVariationId shot) vs of
                            None \<Rightarrow> Inr st
                          | Some currentVariation \<Rightarrow>
                              handleEditShotImage_settle (selectedProjectId st) shotId
                                (apiKeyStatus st) compressImage newId now result
                                (handleEditShotImage_begin currentVariation instruction shotId st))))))"

subsection \<open>Update description, regenerate prompt (lines 528-556)\<close>

definition describeShot :: "string option \<Rightarrow> string \<Rightarrow> nat \<Rightarrow> string \<Rightarrow> Project list \<Rightarrow> Project list" where
  "describeShot sel shotId now newDescription prev =
     map (\<lambda>p. if Some (pid p) \<noteq> sel then p
               else p\<lparr> shots := map (\<lambda>s. if sid s = shotId
                                           then s\<lparr>description := newDescription, isUpdatingPrompt := True\<rparr>
                                           else s) (shots p),
                       updatedAt := now \<rparr>)
         prev"

definition promptRegenerated :: "string option \<Rightarrow> string \<Rightarrow> string \<Rightarrow> Project list \<Rightarrow> Project list" where
  "promptRegenerated sel shotId newVisualPrompt prev =
     map (\<lambda>p. if Some (pid p) \<noteq> sel then p
               else p\<lparr>shots := map (\<lambda>s. if sid s = shotId
                                          then s\<lparr>visualPrompt := newVisualPrompt, isUpdatingPrompt := False\<rparr>
                                          else s) (shots p)\<rparr>)
         prev"

definition promptFailed :: "string option \<Rightarrow> string \<Rightarrow> Project list \<Rightarrow> Project list" where
  "promptFailed sel shotId prev =
     map (\<lambda>p. if Some (pid p) \<noteq> sel then p
               else p\<lparr>shots := map (\<lambda>s. if sid s = shotId then s\<lparr>isUpdatingPrompt := False\<rparr> else s)
                                  (shots p)\<rparr>)
         prev"

definition handleUpdateShotDescription_begin :: "nat \<Rightarrow> string \<Rightarrow> string \<Rightarrow> AppState \<Rightarrow> AppState" where
  "handleUpdateShotDescription_begin now shotId newDescription st =
     st\<lparr> globalError := None, isApiBusy := True,
         projects := describeShot (selectedProjectId st) shotId now newDescription (projects st),
         aiCalls := aiCalls st @ [RegenerateVisualPrompt newDescription] \<rparr>"

definition handleUpdateShotDescription_settle ::
  "string option \<Rightarrow> string \<Rightarrow> ApiKeyStatus \<Rightarrow> string outcome \<Rightarrow> AppState \<Rightarrow> AppState" where
  "handleUpdateShotDescription_settle sel shotId capturedStatus result st =
     finallyThrottle
       (case result of
          Fulfilled newVisualPrompt \<Rightarrow>
            resetWarning capturedStatus
              (st\<lparr>projects := promptRegenerated sel shotId newVisualPrompt (projects st)\<rparr>)
        | Rejected message \<Rightarrow>
            (handleApiError message st)\<lparr>projects := promptFailed sel shotId (projects st)\<rparr>)"

definition handleUpdateShotDescription ::
  "nat \<Rightarrow> string \<Rightarrow> string \<Rightarrow> string outcome \<Rightarrow> AppState \<Rightarrow> AppState" where
  "handleUpdateShotDescription now shotId newDescription result st =
     (if \<not> truthyStr (selectedProjectId st) \<or> isApiBusy st \<or> apiThrottle st > 0 then st
      else handleUpdateShotDescription_settle (selectedProjectId st) shotId (apiKeyStatus st) result
             (handleUpdateShotDescription_begin now shotId newDescription st))"

subsection \<open>Suggestions (lines 584-598)\<close>

text \<open>The handler returns the suggestions, or \<^verbatim>\<open>undefined\<close>, beside the new state.\<close>

definition handleGetSuggestionsForShot_begin :: "string \<Rightarrow> string \<Rightarrow> AppState \<Rightarrow> AppState" where
  "handleGetSuggestionsForShot_begin projectIdea currentDescription st =
     st\<lparr> globalError := None, isApiBusy := True,
         aiCalls := aiCalls st @ [GetScriptSuggestions projectIdea currentDescription] \<rparr>"

definition handleGetSuggestionsForShot_settle ::
  "string list outcome \<Rightarrow> AppState \<Rightarrow> AppState \<times> string list option" where
  "handleGetSuggestionsForShot_settle result st =
     (case result of
        Fulfilled suggestions \<Rightarrow> (finallyThrottle st, Some suggestions)
      | Rejected message \<Rightarrow> (finallyThrottle (handleApiError message st), None))"

definition handleGetSuggestionsForShot ::
  "string \<Rightarrow> string \<Rightarrow> string list outcome \<Rightarrow> AppState \<Rightarrow> AppState \<times> string list option" where
  "handleGetSuggestionsForShot projectIdea currentDescription result st =
     (if isApiBusy st \<or> apiThrottle st > 0 then (st, None)
      else handleGetSuggestionsForShot_settle result
             (handleGetSuggestionsForShot_begin projectIdea currentDescription st))"

section \<open>Legacy shot migration (App.tsx, lines 124-147 and 806-842)\<close>

text \<open>
  The migration is written out twice in the source, once in \<^verbatim>\<open>initializeData\<close> for the
  legacy blob in local storage and once in \<^verbatim>\<open>handleImportJson\<close>. Both build the one
  variation of a legacy shot by the same statements, which are \<open>legacyVariation\<close>.
\<close>

text \<open>\<^verbatim>\<open>a || b || ""\<close> on optional strings.\<close>

definition orElseEmpty :: "string option \<Rightarrow> string option \<Rightarrow> string" where
  "orElseEmpty a b =
     (if truthyStr a then (case a of Some x \<Rightarrow> x | None \<Rightarrow> [])
      else (case b of Some y \<Rightarrow> y | None \<Rightarrow> []))"

definition legacyVariation :: "(string \<Rightarrow> string) \<Rightarrow> string \<Rightarrow> nat \<Rightarrow> Shot \<Rightarrow> ImageAsset" where
  "legacyVariation compressImage newId now s =
     (let orig = orElseEmpty (imageOriginalUrl s) (imageUrl s);
          origSize = (case imageOriginalFileSize s of
                        None \<Rightarrow> calculateBase64Size orig
                      | Some n \<Rightarrow> if n = 0 then calculateBase64Size orig else n);
          (prev, prevSize) =
             (case imagePreviewUrl s of
                None \<Rightarrow> (compressImage orig, Some (calculateBase64Size (compressImage orig)))
              | Some u \<Rightarrow>
                  if u = [] then (compressImage orig, Some (calculateBase64Size (compressImage orig)))
                  else (u, imagePreviewFileSize s))
      in \<lparr> vid = newId, previewUrl = prev, originalUrl = orig, previewFileSize = prevSize,
           originalFileSize = origSize, vCreatedAt = now \<rparr>)"

text \<open>The three \<^verbatim>\<open>delete\<close> statements that end both migrations.\<close>

definition cleanup :: "Shot \<Rightarrow> Shot" where
  "cleanup shot = shot\<lparr>imageUrl := None, imageOriginalUrl := None, imagePreviewUrl := None\<rparr>"

text \<open>The variations of a shot, an absent list read as empty (\<^verbatim>\<open>s.imageVariations || []\<close>).\<close>

definition variations :: "Shot \<Rightarrow> ImageAsset list" where
  "variations s = (case imageVariations s of None \<Rightarrow> [] | Some vs \<Rightarrow> vs)"

text \<open>First run: the callback of \<^verbatim>\<open>p.shots.map\<close> in \<^verbatim>\<open>initializeData\<close>.\<close>

definition migrateStoredShot :: "(string \<Rightarrow> string) \<Rightarrow> string \<Rightarrow> nat \<Rightarrow> Shot \<Rightarrow> Shot" where
  "migrateStoredShot compressImage newId now s =
     (let shot = s\<lparr>imageVariations := Some (variations s)\<rparr>;
          shot' = (if (truthyStr (imageOriginalUrl s) \<or> truthyStr (imageUrl s))
                      \<and> variations shot = []
                   then shot\<lparr> imageVariations := Some [legacyVariation compressImage newId now s],
                               selectedVariationId := Some newId \<rparr>
                   else shot)
      in cleanup shot')"

definition migrateStoredProject ::
  "(string \<Rightarrow> string) \<Rightarrow> (nat \<Rightarrow> string) \<Rightarrow> nat \<Rightarrow> Project \<Rightarrow> Project" where
  "migrateStoredProject compressImage uuidv4 now p =
     p\<lparr>shots := map (\<lambda>(k, s). migrateStoredShot compressImage (uuidv4 k) now s)
                     (enumerate 0 (shots p))\<rparr>"

text \<open>
  \<^verbatim>\<open>initializeData\<close>: legacy data, when there is any, is migrated and written to the
  gateway in one bulk call; then the collection is what the gateway returns.
\<close>

definition initializeData ::
  "(string \<Rightarrow> string) \<Rightarrow> (nat \<Rightarrow> nat \<Rightarrow> string) \<Rightarrow> nat \<Rightarrow> Project list option \<Rightarrow> Project list
     \<Rightarrow> AppState \<Rightarrow> AppState" where
  "initializeData compressImage uuidv4 now localData dbProjects st =
     (case localData of
        None \<Rightarrow> st\<lparr>projects := dbProjects\<rparr>
      | Some parsed \<Rightarrow>
          st\<lparr> dbCalls := dbCalls st
                 @ [SaveAllProjects
                      (map (\<lambda>(j, p). migrateStoredProject compressImage (uuidv4 j) now p)
                           (enumerate 0 parsed))],
              projects := dbProjects \<rparr>)"

text \<open>Import: the callback of \<^verbatim>\<open>parsedProject.shots.map\<close> in \<^verbatim>\<open>handleImportJson\<close>.\<close>

definition migrateImportedShot :: "(string \<Rightarrow> string) \<Rightarrow> string \<Rightarrow> nat \<Rightarrow> Shot \<Rightarrow> Shot" where
  "migrateImportedShot compressImage newId now s =
     (let shot = (case imageVariations s of None \<Rightarrow> s\<lparr>imageVariations := Some []\<rparr> | Some _ \<Rightarrow> s);
          shot' = (if (truthyStr (imageUrl shot) \<or> truthyStr (imageOriginalUrl shot))
                      \<and> variations shot = []
                   then shot\<lparr> imageVariations := Some [legacyVariation compressImage newId now shot],
                               selectedVariationId := Some newId \<rparr>
                   else shot);
          shot'' = (case settings shot' of
                      None \<Rightarrow> shot'\<lparr>settings := Some defaultSettings\<rparr>
                    | Some q \<Rightarrow>
                        if \<not> truthyStr (shotType q)
                        then shot'\<lparr>settings := Some (q\<lparr>shotType := Some ''Medium Shot''\<rparr>)\<rparr>
                        else shot')
      in cleanup shot'')"

section \<open>Import (App.tsx, lines 791-858)\<close>

text \<open>
  What \<^verbatim>\<open>JSON.parse\<close> gives for a project file: a project record in which the two
  fields the handler validates, \<^verbatim>\<open>id\<close> and \<^verbatim>\<open>shots\<close>, may be absent.
\<close>

record ParsedProject =
  fileId :: "string option"
  fileTitle :: string
  fileIdea :: string
  fileShots :: "Shot list option"
  fileTrashedShots :: "Shot list option"
  fileCreatedAt :: nat
  fileUpdatedAt :: nat
  fileIsTrashed :: "bool option"

text \<open>The message shown for a rejected file, with \<open>?\<close> for each character outside ASCII.\<close>

definition importErrorMessage :: string where
  "importErrorMessage = ''File b? l?i ho?c kh?ng ??ng ??nh d?ng.''"

text \<open>
  \<open>handleImportJson\<close> on the parsed content of the chosen file; \<open>None\<close> is a content
  that \<^verbatim>\<open>JSON.parse\<close> rejects. Every exception of the \<^verbatim>\<open>try\<close> block ends in the
  \<^verbatim>\<open>catch\<close> block, which only sets the error message.
\<close>

definition handleImportJson ::
  "(string \<Rightarrow> string) \<Rightarrow> (nat \<Rightarrow> string) \<Rightarrow> string \<Rightarrow> nat \<Rightarrow> ParsedProject option
     \<Rightarrow> AppState \<Rightarrow> AppState" where
  "handleImportJson compressImage uuidv4 newProjectId now parsed st =
     (case parsed of
        None \<Rightarrow> st\<lparr>globalError := Some importErrorMessage\<rparr>
      | Some parsedProject \<Rightarrow>
          (case fileShots parsedProject of
             None \<Rightarrow> st\<lparr>globalError := Some importErrorMessage\<rparr>
           | Some fshots \<Rightarrow>
               if \<not> truthyStr (fileId parsedProject)
               then st\<lparr>globalError := Some importErrorMessage\<rparr>
               else
                 (let migrated = map (\<lambda>(k, s). migrateImportedShot compressImage (uuidv4 k) now s)
                                     (enumerate 0 fshots);
                      imported =
                        \<lparr> pid = newProjectId,
                          title = fileTitle parsedProject @ '' (Imported)'',
                          idea = fileIdea parsedProject, shots = migrated,
                          trashedShots = fileTrashedShots parsedProject,
                          createdAt = fileCreatedAt parsedProject,
                          updatedAt = fileUpdatedAt parsedProject,
                          isTrashed = fileIsTrashed parsedProject \<rparr>
                  in st\<lparr>projects := imported # projects st, globalError := None\<rparr>)))"

section \<open>Controls (App.tsx, line 958)\<close>

text \<open>The \<^verbatim>\<open>disabled\<close> attribute of the create-project button.\<close>

definition createProjectDisabled :: "AppState \<Rightarrow> bool" where
  "createProjectDisabled st =
     (isApiBusy st \<or> trim (ideaInput st) = [] \<or> rateLimitCooldown st > 0 \<or> apiThrottle st > 0)"

section \<open>Invariants of the data model\<close>

text \<open>A selected variation, when there is one, is a member of the shot's variations.\<close>

definition selectionValid :: "Shot \<Rightarrow> bool" where
  "selectionValid s =
     (case selectedVariationId s of
        None \<Rightarrow> True
      | Some v \<Rightarrow> v \<in> set (map vid (variations s)))"

definition allSelectionsValid :: "Project list \<Rightarrow> bool" where
  "allSelectionsValid ps = list_all (\<lambda>p. list_all selectionValid (shots p)) ps"

text \<open>What a transformation does to the dirty marker: every project it changes carries \<open>now\<close>.\<close>

definition bumped :: "nat \<Rightarrow> Project list \<Rightarrow> Project list \<Rightarrow> bool" where
  "bumped now before after = list_all2 (\<lambda>p q. q = p \<or> updatedAt q = now) before after"

section \<open>Sample data\<close>

text \<open>Small concrete values on which the theorems below are instantiated.\<close>

definition sampleShot :: "string \<Rightarrow> int \<Rightarrow> Shot" where
  "sampleShot i n =
     \<lparr> sid = i, shotNumber = n, description = ''a street at night'',
       visualPrompt = ''wide shot of a street at night'', imageVariations = Some [],
       selectedVariationId = None, imagePreviewUrl = None, imageOriginalUrl = None,
       imagePreviewFileSize = None, imageOriginalFileSize = None, imageUrl = None,
       isGeneratingImage = False, isUpdatingPrompt = False,
       settings = Some defaultSettings \<rparr>"

definition sampleProject :: "string \<Rightarrow> nat \<Rightarrow> Shot list \<Rightarrow> Project" where
  "sampleProject i t ss =
     \<lparr> pid = i, title = ''Night'', idea = ''a detective at night'', shots = ss,
       trashedShots = Some [], createdAt = 0, updatedAt = t, isTrashed = Some False \<rparr>"

definition sampleState :: "Project list \<Rightarrow> string option \<Rightarrow> AppState" where
  "sampleState ps sel =
     \<lparr> apiKeyStatus = active, projects = ps, currentView = PROJECT_DETAIL,
       selectedProjectId = sel, prevProjectsRef = None, pendingShotDeletionId = None,
       ideaInput = [], isApiBusy = False, apiThrottle = 0, rateLimitCooldown = 0,
       globalError = None, aiCalls = [], dbCalls = [] \<rparr>"

definition sampleTrashState :: AppState where
  "sampleTrashState = (sampleState
           [(sampleProject ''p1'' 1 [sampleShot ''a'' 5, sampleShot ''b'' 9])
              \<lparr>trashedShots := Some [sampleShot ''c'' 7]\<rparr>]
           (Some ''p1''))\<lparr>pendingShotDeletionId := Some ''a''\<rparr>"

definition sampleAsset :: "string \<Rightarrow> ImageAsset" where
  "sampleAsset i =
     \<lparr> vid = i, previewUrl = ''data:image/jpeg;base64,TQ=='',
       originalUrl = ''data:image/png;base64,TWFu'', previewFileSize = Some (73 / 4),
       originalFileSize = 39 / 2, vCreatedAt = 5 \<rparr>"

text \<open>Identifiers handed out by \<^verbatim>\<open>uuidv4()\<close> in the samples.\<close>

definition sampleUuid :: "nat \<Rightarrow> string" where
  "sampleUuid k = (if k = 0 then ''n0'' else ''n1'')"

text \<open>A shot in the legacy shape: one image in \<open>imageUrl\<close>, no variations, no settings.\<close>

definition legacyShot :: Shot where
  "legacyShot =
     (sampleShot ''a'' 1)
       \<lparr> imageVariations := None, imageUrl := Some ''data:image/png;base64,TWFu'',
         imageOriginalFileSize := Some 3, settings := None \<rparr>"

text \<open>A shot that already has a variation and still carries the old \<open>imageUrl\<close>.\<close>

definition convertedShot :: Shot where
  "convertedShot =
     (sampleShot ''a'' 1)
       \<lparr> imageVariations := Some [sampleAsset ''v1''], selectedVariationId := Some ''v1'',
         imageUrl := Some ''data:image/png;base64,TWFu'' \<rparr>"

text \<open>A project file in the legacy shape: one imaged shot and one shot without image.\<close>

definition legacyFile :: ParsedProject where
  "legacyFile =
     \<lparr> fileId = Some ''old'', fileTitle = ''Night'', fileIdea = ''a detective at night'',
       fileShots = Some [legacyShot, (sampleShot ''b'' 2)\<lparr>imageVariations := None\<rparr>],
       fileTrashedShots = None, fileCreatedAt = 1, fileUpdatedAt = 2, fileIsTrashed = None \<rparr>"

definition imagedShot :: Shot where
  "imagedShot =
     (sampleShot ''a'' 1)
       \<lparr> imageVariations := Some [sampleAsset ''v1'', sampleAsset ''v2''],
         selectedVariationId := Some ''v1'' \<rparr>"

definition imagedProject :: Project where
  "imagedProject = sampleProject ''p1'' 1 [imagedShot]"

text \<open>A state whose selected project has one shot with two variations, the first selected.\<close>

definition imagedState :: AppState where
  "imagedState = sampleState [imagedProject] (Some ''p1'')"

text \<open>A state three seconds into a rate-limit cooldown, with an idea typed in.\<close>

definition coolingState :: AppState where
  "coolingState =
     (sampleState [] None)
       \<lparr>apiKeyStatus := warning, rateLimitCooldown := 57, ideaInput := ''a heist''\<rparr>"

section \<open>Properties\<close>

subsection \<open>Auxiliary facts\<close>

lemma mapE_Inr: "mapE f xs = Inr ys \<Longrightarrow> list_all2 (\<lambda>x y. f x = Inr y) xs ys"
proof (induction xs arbitrary: ys)
  case Nil
  then show ?case by simp
next
  case (Cons x xs)
  then show ?case by (auto split: sum.splits)
qed

lemma mapE_total: "(\<forall>x\<in>set xs. f x = Inr (g x)) \<Longrightarrow> mapE f xs = Inr (map g xs)"
  by (induction xs) simp_all

lemma list_all2_transfer_all:
  assumes "list_all2 R xs ys" "list_all P xs" "\<And>x y. R x y \<Longrightarrow> P x \<Longrightarrow> Q y"
  shows "list_all Q ys"
  using assms by (induction rule: list_all2_induct) auto

lemma projects_handleApiError [simp]: "projects (handleApiError m st) = projects st"
  by (simp add: handleApiError_def Let_def)

lemma projects_finallyThrottle [simp]: "projects (finallyThrottle st) = projects st"
  by (simp add: finallyThrottle_def)

lemma projects_resetWarning [simp]: "projects (resetWarning c st) = projects st"
  by (simp add: resetWarning_def)

lemma throttle_finally [simp]:
  "apiThrottle (finallyThrottle st) = 3" "isApiBusy (finallyThrottle st) = False"
  by (simp_all add: finallyThrottle_def)

lemmas sample_defs = sampleState_def sampleProject_def sampleShot_def

subsection \<open>Byte size of an encoded payload\<close>

text \<open>
  C10, as the specification states it, fails: the code divides without rounding, so an
  encoded length that is not a multiple of four gives a fractional size. The payloads
  the application measures are data URLs; the 26 characters of
  \<open>data:image/png;base64,TWFu\<close> give 39/2 where the specification's formula gives 20.
\<close>

theorem calculateBase64Size_ceiling_counterexample:
  "calculateBase64Size ''data:image/png;base64,TWFu'' = 39 / 2
   \<and> spec_calculateSize ''data:image/png;base64,TWFu'' = 20
   \<and> calculateBase64Size ''data:image/png;base64,TWFu''
        \<noteq> spec_calculateSize ''data:image/png;base64,TWFu''"
proof -
  have c: "\<lceil>(39 / 2 :: rat)\<rceil> = 20" by (simp add: ceiling_unique)
  have a: "calculateBase64Size ''data:image/png;base64,TWFu'' = 39 / 2"
    by (simp add: calculateBase64Size_def padding_def endsWith_def)
  have b: "spec_calculateSize ''data:image/png;base64,TWFu'' = 20"
    by (simp add: spec_calculateSize_def padding_def endsWith_def c)
  show ?thesis using a b by simp
qed

lemma three_quarters_whole:
  "(of_int \<lceil>(of_nat n * 3 / 4 :: rat)\<rceil> = (of_nat n * 3 / 4 :: rat)) \<longleftrightarrow> 4 dvd n"
proof
  assume "4 dvd n"
  then obtain k where k: "n = 4 * k" by (auto simp: dvd_def)
  have "(of_nat n * 3 / 4 :: rat) = of_nat (3 * k)" by (simp add: k)
  then show "of_int \<lceil>(of_nat n * 3 / 4 :: rat)\<rceil> = (of_nat n * 3 / 4 :: rat)"
    by (simp only: ceiling_of_nat of_int_of_nat_eq)
next
  assume "of_int \<lceil>(of_nat n * 3 / 4 :: rat)\<rceil> = (of_nat n * 3 / 4 :: rat)"
  then obtain z :: int where z: "(of_nat n * 3 / 4 :: rat) = of_int z" by metis
  then have "(of_int (int n * 3) :: rat) = of_int (z * 4)" by simp
  then have "int n * 3 = z * 4" by (simp only: of_int_eq_iff)
  then show "4 dvd n" by presburger
qed

lemma size_agrees_iff: "calculateBase64Size s = spec_calculateSize s \<longleftrightarrow> 4 dvd length s"
  using three_quarters_whole [of "length s"]
  by (auto simp add: calculateBase64Size_def spec_calculateSize_def)

text \<open>
  C10 (amended): \<open>calculateBase64Size\<close> returns exactly three quarters of the encoded
  length, with no rounding, minus the padding adjustment (2 when the string ends in two
  padding characters, 1 when it ends in one, else 0). This is the ceiling formula
  exactly when the encoded length is a multiple of four, as it is for a complete base64
  encoding, and is then a whole number of bytes; otherwise it is less than the ceiling
  formula by under one byte. The known pairs hold: \<open>TWFu\<close> is 3 bytes, \<open>TWE=\<close> is 2
  bytes and \<open>TQ==\<close> is 1 byte.
\<close>

theorem calculateBase64Size_formula:
  "calculateBase64Size s =
     of_nat (length s) * 3 / 4
       - (if endsWith s ''=='' then 2 else if endsWith s ''='' then 1 else 0)
   \<and> (calculateBase64Size s = spec_calculateSize s \<longleftrightarrow> 4 dvd length s)
   \<and> (4 dvd length s \<longrightarrow>
        calculateBase64Size s = of_nat (3 * (length s div 4)) - padding s)
   \<and> spec_calculateSize s - 1 < calculateBase64Size s
   \<and> calculateBase64Size s \<le> spec_calculateSize s
   \<and> calculateBase64Size ''TWFu'' = 3
   \<and> calculateBase64Size ''TWE='' = 2
   \<and> calculateBase64Size ''TQ=='' = 1"
proof -
  have general: "calculateBase64Size s =
     of_nat (length s) * 3 / 4
       - (if endsWith s ''=='' then 2 else if endsWith s ''='' then 1 else 0)"
    by (simp add: calculateBase64Size_def padding_def)
  have whole: "calculateBase64Size s = of_nat (3 * (length s div 4)) - padding s"
    if d: "4 dvd length s"
  proof -
    from d obtain k where k: "length s = 4 * k" by (auto simp: dvd_def)
    have q: "(of_nat (length s) * 3 / 4 :: rat) = of_nat (3 * k)"
      by (simp add: k)
    show ?thesis
      unfolding calculateBase64Size_def q by (simp add: k)
  qed
  have near: "spec_calculateSize s - 1 < calculateBase64Size s"
    "calculateBase64Size s \<le> spec_calculateSize s"
    using ceiling_correct [of "of_nat (length s) * 3 / 4 :: rat"]
    by (simp_all add: calculateBase64Size_def spec_calculateSize_def)
  have p0: "calculateBase64Size ''TWFu'' = 3"
    by (simp add: calculateBase64Size_def padding_def endsWith_def)
  have p1: "calculateBase64Size ''TWE='' = 2"
    by (simp add: calculateBase64Size_def padding_def endsWith_def)
  have p2: "calculateBase64Size ''TQ=='' = 1"
    by (simp add: calculateBase64Size_def padding_def endsWith_def)
  from general size_agrees_iff [of s] whole near p0 p1 p2 show ?thesis by blast
qed

theorem calculateBase64Size_formula_witness:
  "4 dvd length ''QUJDRA=='' \<and> calculateBase64Size ''QUJDRA=='' = 4
   \<and> spec_calculateSize ''QUJDRA=='' = 4"
proof -
  have l: "length ''QUJDRA=='' = 8" by simp
  have d: "4 dvd length ''QUJDRA==''" unfolding l by simp
  have p: "padding ''QUJDRA=='' = 2" by (simp add: padding_def endsWith_def)
  from calculateBase64Size_formula [of "''QUJDRA==''"] d
  have "calculateBase64Size ''QUJDRA=='' = of_nat (3 * (length ''QUJDRA=='' div 4)) - padding ''QUJDRA==''"
    and "calculateBase64Size ''QUJDRA=='' = spec_calculateSize ''QUJDRA==''"
    by blast+
  then show ?thesis using d p l by simp
qed

subsection \<open>Auto-saver\<close>

lemma find_by_id:
  "distinct (map pid S) \<Longrightarrow> q \<in> set S \<Longrightarrow> find (\<lambda>p. pid p = pid q) S = Some q"
  by (induction S) (auto simp: rev_image_eqI)

lemma dirty_iff:
  assumes "distinct (map pid S)"
  shows "(case find (\<lambda>q. pid q = pid p) S of None \<Rightarrow> True | Some old \<Rightarrow> updatedAt old \<noteq> updatedAt p)
         \<longleftrightarrow> (pid p \<notin> pid ` set S \<or> (\<exists>q\<in>set S. pid q = pid p \<and> updatedAt q \<noteq> updatedAt p))"
proof (cases "find (\<lambda>q. pid q = pid p) S")
  case None
  then have "pid p \<notin> pid ` set S" by (auto simp: find_None_iff)
  with None show ?thesis by simp
next
  case (Some old)
  then have old: "old \<in> set S" "pid old = pid p"
    by (auto simp: find_Some_iff)
  have uniq: "q = old" if "q \<in> set S" "pid q = pid p" for q
    using assms that old by (auto simp: distinct_map inj_on_def)
  have ex: "(\<exists>q\<in>set S. pid q = pid p \<and> updatedAt q \<noteq> updatedAt p)
            \<longleftrightarrow> updatedAt old \<noteq> updatedAt p"
    using old uniq by blast
  have mem: "pid p \<in> pid ` set S" using old by force
  show ?thesis by (simp only: Some option.case ex mem not_True_eq_False simp_thms)
qed

lemma changed_unchanged_clean:
  assumes "distinct (map pid S)" "q \<in> set S"
  shows "\<not> (case find (\<lambda>p. pid p = pid q) S of None \<Rightarrow> True | Some old \<Rightarrow> updatedAt old \<noteq> updatedAt q)"
  using find_by_id [OF assms] by simp

lemma changed_single:
  assumes d: "distinct (map pid S)" and k: "k < length S" and t: "t \<noteq> updatedAt (S ! k)"
  shows "changedProjects (Some S) (S[k := (S ! k)\<lparr>updatedAt := t\<rparr>]) = [(S ! k)\<lparr>updatedAt := t\<rparr>]"
proof -
  let ?P = "(S ! k)\<lparr>updatedAt := t\<rparr>"
  let ?dirty = "\<lambda>project. case find (\<lambda>p. pid p = pid project) S of
                      None \<Rightarrow> True | Some old \<Rightarrow> updatedAt old \<noteq> updatedAt project"
  have split: "S[k := ?P] = take k S @ ?P # drop (Suc k) S"
    using k by (simp add: upd_conv_take_nth_drop)
  have clean: "\<not> ?dirty q" if "q \<in> set S" for q
    using changed_unchanged_clean [OF d that] .
  have f1: "filter ?dirty (take k S) = []"
    using clean by (auto simp: filter_empty_conv dest: in_set_takeD)
  have f2: "filter ?dirty (drop (Suc k) S) = []"
    using clean by (auto simp: filter_empty_conv dest: in_set_dropD)
  have "find (\<lambda>p. pid p = pid (S ! k)) S = Some (S ! k)"
    using find_by_id [OF d, of "S ! k"] k by simp
  then have f3: "?dirty ?P" using t by simp
  show ?thesis
    unfolding changedProjects_def split using f1 f2 f3 by simp
qed

text \<open>
  C1: when the debounce timer fires, the upserts issued are exactly: every current
  project when there is no snapshot; otherwise (snapshot ids being unique) the projects
  whose id is absent from the snapshot or whose \<open>updatedAt\<close> differs from the snapshot
  entry with the same id. When the new state is the snapshot with one project's
  \<open>updatedAt\<close> changed, the one upsert is that project; with no snapshot and three
  projects there are three upserts.
\<close>

theorem autosave_dirty_set:
  "(prevProjectsRef st = None \<longrightarrow>
      dbCalls (saveTimeout st) = dbCalls st @ map SaveProject (projects st))
   \<and> (prevProjectsRef st = Some S \<and> distinct (map pid S) \<longrightarrow>
      dbCalls (saveTimeout st) = dbCalls st @ map SaveProject
        (filter (\<lambda>p. pid p \<notin> pid ` set S
                      \<or> (\<exists>q\<in>set S. pid q = pid p \<and> updatedAt q \<noteq> updatedAt p))
                (projects st)))
   \<and> (prevProjectsRef st = Some S \<and> distinct (map pid S) \<and> k < length S
        \<and> t \<noteq> updatedAt (S ! k) \<and> projects st = S[k := (S ! k)\<lparr>updatedAt := t\<rparr>] \<longrightarrow>
      dbCalls (saveTimeout st) = dbCalls st @ [SaveProject ((S ! k)\<lparr>updatedAt := t\<rparr>)])
   \<and> (prevProjectsRef st = None \<and> length (projects st) = 3 \<longrightarrow>
      length (dbCalls (saveTimeout st)) = length (dbCalls st) + 3)"
proof -
  have calls: "dbCalls (saveTimeout st) =
      dbCalls st @ map SaveProject (changedProjects (prevProjectsRef st) (projects st))"
    by (simp add: saveTimeout_def)
  have first: "changedProjects None (projects st) = projects st"
    by (simp add: changedProjects_def)
  have later: "changedProjects (Some S) (projects st) =
     filter (\<lambda>p. pid p \<notin> pid ` set S
                  \<or> (\<exists>q\<in>set S. pid q = pid p \<and> updatedAt q \<noteq> updatedAt p)) (projects st)"
    if d: "distinct (map pid S)"
    unfolding changedProjects_def option.case
    by (rule filter_cong [OF refl]) (rule dirty_iff [OF d])
  have one: "changedProjects (Some S) (projects st) = [(S ! k)\<lparr>updatedAt := t\<rparr>]"
    if "distinct (map pid S)" "k < length S" "t \<noteq> updatedAt (S ! k)"
       "projects st = S[k := (S ! k)\<lparr>updatedAt := t\<rparr>]"
    using changed_single [OF that(1-3)] by (simp only: that(4))
  show ?thesis
  proof (intro conjI impI)
    assume "prevProjectsRef st = None"
    then show "dbCalls (saveTimeout st) = dbCalls st @ map SaveProject (projects st)"
      using calls first by simp
  next
    assume "prevProjectsRef st = Some S \<and> distinct (map pid S)"
    then show "dbCalls (saveTimeout st) = dbCalls st @ map SaveProject
        (filter (\<lambda>p. pid p \<notin> pid ` set S
                      \<or> (\<exists>q\<in>set S. pid q = pid p \<and> updatedAt q \<noteq> updatedAt p))
                (projects st))"
      using calls later by simp
  next
    assume a: "prevProjectsRef st = Some S \<and> distinct (map pid S) \<and> k < length S
        \<and> t \<noteq> updatedAt (S ! k) \<and> projects st = S[k := (S ! k)\<lparr>updatedAt := t\<rparr>]"
    then have "changedProjects (prevProjectsRef st) (projects st) = [(S ! k)\<lparr>updatedAt := t\<rparr>]"
      using one by metis
    then show "dbCalls (saveTimeout st) = dbCalls st @ [SaveProject ((S ! k)\<lparr>updatedAt := t\<rparr>)]"
      by (simp only: calls list.map)
  next
    assume "prevProjectsRef st = None \<and> length (projects st) = 3"
    then show "length (dbCalls (saveTimeout st)) = length (dbCalls st) + 3"
      using calls first by simp
  qed
qed

theorem autosave_dirty_set_witness:
  "dbCalls (saveTimeout (sampleState [sampleProject ''p1'' 1 [], sampleProject ''p2'' 2 [], sampleProject ''p3'' 3 []] None))
     = [SaveProject (sampleProject ''p1'' 1 []), SaveProject (sampleProject ''p2'' 2 []), SaveProject (sampleProject ''p3'' 3 [])]
   \<and> dbCalls (saveTimeout ((sampleState [sampleProject ''p1'' 1 [], sampleProject ''p2'' 9 [], sampleProject ''p4'' 4 []] None)
         \<lparr>prevProjectsRef := Some [sampleProject ''p1'' 1 [], sampleProject ''p2'' 2 [], sampleProject ''p3'' 3 []]\<rparr>))
     = [SaveProject (sampleProject ''p2'' 9 []), SaveProject (sampleProject ''p4'' 4 [])]
   \<and> dbCalls (saveTimeout ((sampleState [sampleProject ''p1'' 1 [], sampleProject ''p2'' 9 [], sampleProject ''p3'' 3 []] None)
         \<lparr>prevProjectsRef := Some [sampleProject ''p1'' 1 [], sampleProject ''p2'' 2 [], sampleProject ''p3'' 3 []]\<rparr>))
     = [SaveProject (sampleProject ''p2'' 9 [])]"
proof -
  let ?S = "[sampleProject ''p1'' 1 [], sampleProject ''p2'' 2 [], sampleProject ''p3'' 3 []]"
  let ?st1 = "sampleState ?S None"
  let ?st2 = "(sampleState [sampleProject ''p1'' 1 [], sampleProject ''p2'' 9 [], sampleProject ''p4'' 4 []] None)
         \<lparr>prevProjectsRef := Some ?S\<rparr>"
  let ?st3 = "(sampleState [sampleProject ''p1'' 1 [], sampleProject ''p2'' 9 [], sampleProject ''p3'' 3 []] None)
         \<lparr>prevProjectsRef := Some ?S\<rparr>"
  have d: "distinct (map pid ?S)" by (simp add: sample_defs)
  have a: "dbCalls (saveTimeout ?st1) = map SaveProject ?S"
    using autosave_dirty_set [of ?st1 ?S 1 9] by (simp add: sampleState_def)
  have b: "dbCalls (saveTimeout ?st2) = [SaveProject (sampleProject ''p2'' 9 []), SaveProject (sampleProject ''p4'' 4 [])]"
    using autosave_dirty_set [of ?st2 ?S 1 9] d by (simp add: sample_defs)
  have c: "dbCalls (saveTimeout ?st3) = [SaveProject (sampleProject ''p2'' 9 [])]"
    using autosave_dirty_set [of ?st3 ?S 1 9] d by (simp add: sample_defs)
  from a b c show ?thesis by simp
qed

subsection \<open>Shot renumbering\<close>

lemma renumber_length: "length (renumber xs) = length xs"
  by (simp add: renumber_def)

lemma renumber_nth: "j < length xs \<Longrightarrow> shotNumber (renumber xs ! j) = int j + 1"
  by (simp add: renumber_def nth_enumerate_eq)

lemma renumber_numbered:
  "\<forall>j<length (renumber xs). shotNumber (renumber xs ! j) = int j + 1"
  by (simp add: renumber_length renumber_nth)

lemma findIndex_None_iff: "findIndex P xs = None \<longleftrightarrow> (\<forall>x\<in>set xs. \<not> P x)"
  by (induction xs) auto

lemma addShotAfter_found:
  assumes "\<exists>s\<in>set (shots p). sid s = prev"
  shows "\<exists>xs. shots (addShotAfter newId now prev p) = renumber xs"
proof -
  from assms obtain i where "findIndex (\<lambda>s. sid s = prev) (shots p) = Some i"
    using findIndex_None_iff [of "\<lambda>s. sid s = prev" "shots p"] by (cases "findIndex (\<lambda>s. sid s = prev) (shots p)") auto
  then show ?thesis by (auto simp add: addShotAfter_def Let_def)
qed

lemma trashShot_found:
  assumes "\<exists>s\<in>set (shots p). sid s = shotId"
  shows "\<exists>xs. shots (trashShot now shotId p) = renumber xs"
proof -
  from assms obtain x where "find (\<lambda>s. sid s = shotId) (shots p) = Some x"
    by (cases "find (\<lambda>s. sid s = shotId) (shots p)") (auto simp: find_None_iff)
  then show ?thesis by (auto simp add: trashShot_def Let_def)
qed

lemma restoreShot_found:
  assumes "trashedShots p = Some ts" "\<exists>s\<in>set ts. sid s = shotId"
  shows "\<exists>xs. shots (restoreShot now shotId p) = renumber xs"
proof -
  from assms obtain x where "find (\<lambda>s. sid s = shotId) ts = Some x"
    by (cases "find (\<lambda>s. sid s = shotId) ts") (auto simp: find_None_iff)
  then show ?thesis using assms(1) by (auto simp add: restoreShot_def Let_def)
qed

lemma selected_nth_add:
  assumes "truthyStr (selectedProjectId st)" "i < length (projects st)"
    "selectedProjectId st = Some (pid (projects st ! i))"
  shows "projects (handleAddShotAfter newId now prev st) ! i
           = addShotAfter newId now prev (projects st ! i)"
  using assms by (simp add: handleAddShotAfter_def)

lemma selected_nth_trash:
  assumes "truthyStr (selectedProjectId st)" "i < length (projects st)"
    "selectedProjectId st = Some (pid (projects st ! i))"
    "pendingShotDeletionId st = Some shotId" "shotId \<noteq> []"
  shows "projects (handleConfirmDeleteShot now st) ! i = trashShot now shotId (projects st ! i)"
  using assms by (simp add: handleConfirmDeleteShot_def truthyStr_def)

lemma selected_nth_restore:
  assumes "truthyStr (selectedProjectId st)" "i < length (projects st)"
    "selectedProjectId st = Some (pid (projects st ! i))"
  shows "projects (handleRestoreShot now shotId st) ! i = restoreShot now shotId (projects st ! i)"
  using assms by (simp add: handleRestoreShot_def)

text \<open>
  C3: in the selected project, after add-shot-after (the previous shot is in the list),
  trash-shot (the pending shot is in the list) or restore-shot (the shot is in the
  trash), every shot of the active list has \<open>shotNumber = index + 1\<close>.
\<close>

theorem shot_renumbering:
  assumes sel: "truthyStr (selectedProjectId st)"
      and i: "i < length (projects st)"
      and p: "selectedProjectId st = Some (pid (projects st ! i))"
  shows "((\<exists>s\<in>set (shots (projects st ! i)). sid s = previousShotId) \<longrightarrow>
            (\<forall>j < length (shots (projects (handleAddShotAfter newId now previousShotId st) ! i)).
               shotNumber (shots (projects (handleAddShotAfter newId now previousShotId st) ! i) ! j)
                 = int j + 1))
       \<and> (pendingShotDeletionId st = Some trashId \<and> trashId \<noteq> []
            \<and> (\<exists>s\<in>set (shots (projects st ! i)). sid s = trashId) \<longrightarrow>
            (\<forall>j < length (shots (projects (handleConfirmDeleteShot now st) ! i)).
               shotNumber (shots (projects (handleConfirmDeleteShot now st) ! i) ! j) = int j + 1))
       \<and> ((\<exists>ts. trashedShots (projects st ! i) = Some ts \<and> (\<exists>s\<in>set ts. sid s = restoreId)) \<longrightarrow>
            (\<forall>j < length (shots (projects (handleRestoreShot now restoreId st) ! i)).
               shotNumber (shots (projects (handleRestoreShot now restoreId st) ! i) ! j) = int j + 1))"
proof (intro conjI impI)
  assume "\<exists>s\<in>set (shots (projects st ! i)). sid s = previousShotId"
  then obtain xs where
    "shots (addShotAfter newId now previousShotId (projects st ! i)) = renumber xs"
    using addShotAfter_found by blast
  then show "\<forall>j < length (shots (projects (handleAddShotAfter newId now previousShotId st) ! i)).
               shotNumber (shots (projects (handleAddShotAfter newId now previousShotId st) ! i) ! j)
                 = int j + 1"
    unfolding selected_nth_add [OF sel i p] using renumber_numbered [of xs] by simp
next
  assume a: "pendingShotDeletionId st = Some trashId \<and> trashId \<noteq> []
            \<and> (\<exists>s\<in>set (shots (projects st ! i)). sid s = trashId)"
  then obtain xs where
    "shots (trashShot now trashId (projects st ! i)) = renumber xs"
    using trashShot_found by blast
  moreover have "projects (handleConfirmDeleteShot now st) ! i = trashShot now trashId (projects st ! i)"
    using selected_nth_trash [OF sel i p] a by blast
  ultimately show "\<forall>j < length (shots (projects (handleConfirmDeleteShot now st) ! i)).
               shotNumber (shots (projects (handleConfirmDeleteShot now st) ! i) ! j) = int j + 1"
    using renumber_numbered [of xs] by simp
next
  assume "\<exists>ts. trashedShots (projects st ! i) = Some ts \<and> (\<exists>s\<in>set ts. sid s = restoreId)"
  then obtain xs where
    "shots (restoreShot now restoreId (projects st ! i)) = renumber xs"
    using restoreShot_found by blast
  then show "\<forall>j < length (shots (projects (handleRestoreShot now restoreId st) ! i)).
               shotNumber (shots (projects (handleRestoreShot now restoreId st) ! i) ! j) = int j + 1"
    unfolding selected_nth_restore [OF sel i p] using renumber_numbered [of xs] by simp
qed

theorem shot_renumbering_witness:
  "truthyStr (selectedProjectId sampleTrashState) \<and> 0 < length (projects sampleTrashState)
   \<and> selectedProjectId sampleTrashState = Some (pid (projects sampleTrashState ! 0))
   \<and> (\<exists>s\<in>set (shots (projects sampleTrashState ! 0)). sid s = ''a'')
   \<and> pendingShotDeletionId sampleTrashState = Some ''a''
   \<and> (\<exists>ts. trashedShots (projects sampleTrashState ! 0) = Some ts \<and> (\<exists>s\<in>set ts. sid s = ''c''))
   \<and> shotNumber (shots (projects (handleAddShotAfter ''n'' 40 ''a'' sampleTrashState) ! 0) ! 2) = 3
   \<and> shotNumber (shots (projects (handleConfirmDeleteShot 40 sampleTrashState) ! 0) ! 0) = 1
   \<and> shotNumber (shots (projects (handleRestoreShot 40 ''c'' sampleTrashState) ! 0) ! 1) = 2"
proof -
  have h1: "truthyStr (selectedProjectId sampleTrashState)"
    by (simp add: sampleTrashState_def sample_defs truthyStr_def)
  have h2: "0 < length (projects sampleTrashState)"
    by (simp add: sampleTrashState_def sample_defs)
  have h3: "selectedProjectId sampleTrashState = Some (pid (projects sampleTrashState ! 0))"
    by (simp add: sampleTrashState_def sample_defs)
  have h4: "\<exists>s\<in>set (shots (projects sampleTrashState ! 0)). sid s = ''a''"
    by (simp add: sampleTrashState_def sample_defs)
  have h5: "pendingShotDeletionId sampleTrashState = Some ''a''"
    by (simp add: sampleTrashState_def sample_defs)
  have h6: "\<exists>ts. trashedShots (projects sampleTrashState ! 0) = Some ts \<and> (\<exists>s\<in>set ts. sid s = ''c'')"
    by (simp add: sampleTrashState_def sample_defs)
  have l1: "length (shots (projects (handleAddShotAfter ''n'' 40 ''a'' sampleTrashState) ! 0)) = 3"
    by (simp add: sampleTrashState_def sample_defs handleAddShotAfter_def addShotAfter_def truthyStr_def
          renumber_def)
  have l2: "length (shots (projects (handleConfirmDeleteShot 40 sampleTrashState) ! 0)) = 1"
    by (simp add: sampleTrashState_def sample_defs handleConfirmDeleteShot_def trashShot_def truthyStr_def
          renumber_def)
  have l3: "length (shots (projects (handleRestoreShot 40 ''c'' sampleTrashState) ! 0)) = 3"
    by (simp add: sampleTrashState_def sample_defs handleRestoreShot_def restoreShot_def truthyStr_def
          renumber_def)
  note t = shot_renumbering [OF h1 h2 h3, of "''a''" "''n''" 40 "''a''" "''c''"]
  from t h4 l1 have c1: "shotNumber (shots (projects (handleAddShotAfter ''n'' 40 ''a'' sampleTrashState) ! 0) ! 2) = 3"
    by simp
  from t h4 h5 l2 have c2: "shotNumber (shots (projects (handleConfirmDeleteShot 40 sampleTrashState) ! 0) ! 0) = 1"
    by simp
  from t h6 l3 have c3: "shotNumber (shots (projects (handleRestoreShot 40 ''c'' sampleTrashState) ! 0) ! 1) = 2"
    by simp
  from h1 h2 h3 h4 h5 h6 c1 c2 c3 show ?thesis by blast
qed

subsection \<open>Legacy shot migration\<close>

text \<open>
  C4, as the specification states it, fails: both migrations end with the three
  \<^verbatim>\<open>delete\<close> statements whatever the shot holds, so a shot that already has a
  variation and still carries \<open>imageUrl\<close> loses that field.
\<close>

theorem migrate_unchanged_counterexample:
  "imageVariations convertedShot = Some [sampleAsset ''v1'']
   \<and> migrateStoredShot id ''n'' 9 convertedShot \<noteq> convertedShot
   \<and> migrateImportedShot id ''n'' 9 convertedShot \<noteq> convertedShot
   \<and> imageUrl convertedShot = Some ''data:image/png;base64,TWFu''
   \<and> imageUrl (migrateStoredShot id ''n'' 9 convertedShot) = None
   \<and> imageUrl (migrateImportedShot id ''n'' 9 convertedShot) = None"
proof -
  have a: "imageUrl (migrateStoredShot id ''n'' 9 convertedShot) = None"
    by (simp add: migrateStoredShot_def cleanup_def Let_def)
  have b: "imageUrl (migrateImportedShot id ''n'' 9 convertedShot) = None"
    by (simp add: migrateImportedShot_def cleanup_def Let_def split: option.split)
  have c: "imageUrl convertedShot = Some ''data:image/png;base64,TWFu''"
    by (simp add: convertedShot_def)
  have d: "imageVariations convertedShot = Some [sampleAsset ''v1'']"
    by (simp add: convertedShot_def)
  from a c have "migrateStoredShot id ''n'' 9 convertedShot \<noteq> convertedShot" by auto
  moreover from b c have "migrateImportedShot id ''n'' 9 convertedShot \<noteq> convertedShot" by auto
  ultimately show ?thesis using a b c d by simp
qed

lemma migrateStoredShot_nonempty:
  assumes "imageVariations s = Some vs" "vs \<noteq> []"
  shows "migrateStoredShot c i t s = cleanup s"
proof -
  have e: "s\<lparr>imageVariations := Some vs\<rparr> = s" using assms(1) by simp
  show ?thesis
    by (simp add: migrateStoredShot_def variations_def Let_def assms e)
qed

lemma migrateImportedShot_nonempty:
  assumes "imageVariations s = Some vs" "vs \<noteq> []"
  shows "migrateImportedShot c i t s =
     cleanup (case settings s of
                      None \<Rightarrow> s\<lparr>settings := Some defaultSettings\<rparr>
                    | Some q \<Rightarrow>
                        if \<not> truthyStr (shotType q)
                        then s\<lparr>settings := Some (q\<lparr>shotType := Some ''Medium Shot''\<rparr>)\<rparr>
                        else s)"
  using assms by (simp add: migrateImportedShot_def variations_def Let_def)

lemma cleanup_id:
  "imageUrl s = None \<Longrightarrow> imageOriginalUrl s = None \<Longrightarrow> imagePreviewUrl s = None \<Longrightarrow> cleanup s = s"
  by (simp add: cleanup_def)

text \<open>
  C4 (amended): for a shot whose \<open>imageVariations\<close> is non-empty, the migration builds no
  variation and keeps \<open>imageVariations\<close>, \<open>selectedVariationId\<close> and every other field,
  except that it removes \<open>imageUrl\<close>, \<open>imageOriginalUrl\<close> and \<open>imagePreviewUrl\<close> and, on
  import only, fills in absent settings or an absent shot type. A shot that has none of
  the three fields (and, on import, has settings with a shot type) is returned
  unchanged.
\<close>

theorem migrate_nonempty_variations:
  assumes "imageVariations s = Some vs" and "vs \<noteq> []"
  shows "migrateStoredShot c i t s
           = s\<lparr>imageUrl := None, imageOriginalUrl := None, imagePreviewUrl := None\<rparr>
       \<and> migrateImportedShot c i t s
           = (case settings s of
                None \<Rightarrow> s\<lparr>settings := Some defaultSettings\<rparr>
              | Some q \<Rightarrow> if truthyStr (shotType q) then s
                          else s\<lparr>settings := Some (q\<lparr>shotType := Some ''Medium Shot''\<rparr>)\<rparr>)
               \<lparr>imageUrl := None, imageOriginalUrl := None, imagePreviewUrl := None\<rparr>
       \<and> imageVariations (migrateStoredShot c i t s) = Some vs
       \<and> imageVariations (migrateImportedShot c i t s) = Some vs
       \<and> selectedVariationId (migrateStoredShot c i t s) = selectedVariationId s
       \<and> selectedVariationId (migrateImportedShot c i t s) = selectedVariationId s
       \<and> (imageUrl s = None \<and> imageOriginalUrl s = None \<and> imagePreviewUrl s = None
            \<longrightarrow> migrateStoredShot c i t s = s)
       \<and> (imageUrl s = None \<and> imageOriginalUrl s = None \<and> imagePreviewUrl s = None
            \<and> (\<exists>q. settings s = Some q \<and> truthyStr (shotType q))
            \<longrightarrow> migrateImportedShot c i t s = s)"
proof -
  note st = migrateStoredShot_nonempty [OF assms, of c i t]
  note im = migrateImportedShot_nonempty [OF assms, of c i t]
  have 1: "migrateStoredShot c i t s
           = s\<lparr>imageUrl := None, imageOriginalUrl := None, imagePreviewUrl := None\<rparr>"
    by (simp add: st cleanup_def)
  have 2: "migrateImportedShot c i t s
           = (case settings s of
                None \<Rightarrow> s\<lparr>settings := Some defaultSettings\<rparr>
              | Some q \<Rightarrow> if truthyStr (shotType q) then s
                          else s\<lparr>settings := Some (q\<lparr>shotType := Some ''Medium Shot''\<rparr>)\<rparr>)
               \<lparr>imageUrl := None, imageOriginalUrl := None, imagePreviewUrl := None\<rparr>"
    by (simp add: im cleanup_def split: option.split)
  have 3: "imageVariations (migrateStoredShot c i t s) = Some vs"
    by (simp add: 1 assms(1))
  have 4: "imageVariations (migrateImportedShot c i t s) = Some vs"
    by (simp add: 2 assms(1) split: option.split)
  have 5: "selectedVariationId (migrateStoredShot c i t s) = selectedVariationId s"
    by (simp add: 1)
  have 6: "selectedVariationId (migrateImportedShot c i t s) = selectedVariationId s"
    by (simp add: 2 split: option.split)
  have 7: "migrateStoredShot c i t s = s"
    if "imageUrl s = None \<and> imageOriginalUrl s = None \<and> imagePreviewUrl s = None"
    using that by (simp add: st cleanup_id)
  have 8: "migrateImportedShot c i t s = s"
    if "imageUrl s = None \<and> imageOriginalUrl s = None \<and> imagePreviewUrl s = None
            \<and> (\<exists>q. settings s = Some q \<and> truthyStr (shotType q))"
    using that by (auto simp add: im cleanup_id)
  from 1 2 3 4 5 6 7 8 show ?thesis by blast
qed

theorem migrate_nonempty_variations_witness:
  "imageVariations convertedShot = Some [sampleAsset ''v1''] \<and> [sampleAsset ''v1''] \<noteq> []
   \<and> imageVariations (migrateImportedShot id ''n'' 9 convertedShot) = Some [sampleAsset ''v1'']
   \<and> selectedVariationId (migrateStoredShot id ''n'' 9 convertedShot) = Some ''v1''
   \<and> migrateStoredShot id ''n'' 9 (convertedShot\<lparr>imageUrl := None\<rparr>) = convertedShot\<lparr>imageUrl := None\<rparr>
   \<and> migrateImportedShot id ''n'' 9 (convertedShot\<lparr>imageUrl := None\<rparr>) = convertedShot\<lparr>imageUrl := None\<rparr>"
proof -
  have h: "imageVariations convertedShot = Some [sampleAsset ''v1'']"
    by (simp add: convertedShot_def)
  have h': "imageVariations (convertedShot\<lparr>imageUrl := None\<rparr>) = Some [sampleAsset ''v1'']"
    by (simp add: convertedShot_def)
  have n: "[sampleAsset ''v1''] \<noteq> []" by simp
  have abs: "imageUrl (convertedShot\<lparr>imageUrl := None\<rparr>) = None
       \<and> imageOriginalUrl (convertedShot\<lparr>imageUrl := None\<rparr>) = None
       \<and> imagePreviewUrl (convertedShot\<lparr>imageUrl := None\<rparr>) = None
       \<and> (\<exists>q. settings (convertedShot\<lparr>imageUrl := None\<rparr>) = Some q \<and> truthyStr (shotType q))"
    by (simp add: convertedShot_def sampleShot_def defaultSettings_def truthyStr_def)
  have sel: "selectedVariationId convertedShot = Some ''v1''"
    by (simp add: convertedShot_def)
  note a = migrate_nonempty_variations [OF h n, of id "''n''" 9]
  note b = migrate_nonempty_variations [OF h' n, of id "''n''" 9]
  from a have 1: "imageVariations (migrateImportedShot id ''n'' 9 convertedShot) = Some [sampleAsset ''v1'']"
    by blast
  from a sel have 2: "selectedVariationId (migrateStoredShot id ''n'' 9 convertedShot) = Some ''v1''"
    by simp
  from b abs have 3: "migrateStoredShot id ''n'' 9 (convertedShot\<lparr>imageUrl := None\<rparr>) = convertedShot\<lparr>imageUrl := None\<rparr>"
    by blast
  from b abs have 4: "migrateImportedShot id ''n'' 9 (convertedShot\<lparr>imageUrl := None\<rparr>) = convertedShot\<lparr>imageUrl := None\<rparr>"
    by blast
  from h n 1 2 3 4 show ?thesis by blast
qed

lemma legacyVariation_fields:
  "vid (legacyVariation c i t s) = i
   \<and> vCreatedAt (legacyVariation c i t s) = t
   \<and> originalUrl (legacyVariation c i t s) = orElseEmpty (imageOriginalUrl s) (imageUrl s)
   \<and> originalFileSize (legacyVariation c i t s)
       = (if truthyNum (imageOriginalFileSize s)
          then (case imageOriginalFileSize s of Some n \<Rightarrow> n | None \<Rightarrow> 0)
          else calculateBase64Size (orElseEmpty (imageOriginalUrl s) (imageUrl s)))
   \<and> previewUrl (legacyVariation c i t s)
       = (if truthyStr (imagePreviewUrl s)
          then (case imagePreviewUrl s of Some u \<Rightarrow> u | None \<Rightarrow> [])
          else c (orElseEmpty (imageOriginalUrl s) (imageUrl s)))
   \<and> previewFileSize (legacyVariation c i t s)
       = (if truthyStr (imagePreviewUrl s) then imagePreviewFileSize s
          else Some (calculateBase64Size (c (orElseEmpty (imageOriginalUrl s) (imageUrl s)))))"
  by (simp add: legacyVariation_def Let_def truthyStr_def truthyNum_def split: option.split)

lemma migrateStoredShot_legacy:
  assumes "variations s = []" "truthyStr (imageUrl s) \<or> truthyStr (imageOriginalUrl s)"
  shows "migrateStoredShot c i t s
           = s\<lparr> imageVariations := Some [legacyVariation c i t s], selectedVariationId := Some i,
                imageUrl := None, imageOriginalUrl := None, imagePreviewUrl := None \<rparr>"
  using assms by (auto simp add: migrateStoredShot_def Let_def cleanup_def variations_def)

lemma legacyVariation_cong:
  "legacyVariation c i t (s\<lparr>imageVariations := x\<rparr>) = legacyVariation c i t s"
  by (simp add: legacyVariation_def Let_def split: option.split)

lemma migrateImportedShot_legacy:
  assumes "variations s = []" "truthyStr (imageUrl s) \<or> truthyStr (imageOriginalUrl s)"
  shows "migrateImportedShot c i t s
           = s\<lparr> imageVariations := Some [legacyVariation c i t s], selectedVariationId := Some i,
                settings := (case settings s of
                               None \<Rightarrow> Some defaultSettings
                             | Some q \<Rightarrow> if truthyStr (shotType q) then Some q
                                         else Some (q\<lparr>shotType := Some ''Medium Shot''\<rparr>)),
                imageUrl := None, imageOriginalUrl := None, imagePreviewUrl := None \<rparr>"
proof (cases "imageVariations s")
  case None
  then show ?thesis using assms
    by (auto simp add: migrateImportedShot_def Let_def cleanup_def variations_def
          legacyVariation_cong split: option.split)
next
  case (Some vs)
  with assms(1) have "vs = []" by (simp add: variations_def)
  with Some show ?thesis using assms
    by (auto simp add: migrateImportedShot_def Let_def cleanup_def variations_def
          split: option.split)
qed

text \<open>
  C5, as the specification states it, fails: neither migration removes
  \<open>imageOriginalFileSize\<close> or \<open>imagePreviewFileSize\<close>, and the first-run migration does
  not touch the settings.
\<close>

theorem migrate_legacy_counterexample:
  "variations legacyShot = [] \<and> truthyStr (imageUrl legacyShot)
   \<and> imageOriginalFileSize (migrateStoredShot id ''n'' 9 legacyShot) = Some 3
   \<and> imageOriginalFileSize (migrateImportedShot id ''n'' 9 legacyShot) = Some 3
   \<and> settings legacyShot = None
   \<and> settings (migrateStoredShot id ''n'' 9 legacyShot) = None"
  by (simp add: legacyShot_def sampleShot_def variations_def truthyStr_def
        migrateStoredShot_def migrateImportedShot_def cleanup_def Let_def)

text \<open>
  C5 (amended): for a shot with no variations and a non-empty \<open>imageUrl\<close> or
  \<open>imageOriginalUrl\<close>, both migrations build exactly one ImageAsset, make it the sole
  variation and the selected one, and remove \<open>imageUrl\<close>, \<open>imageOriginalUrl\<close> and
  \<open>imagePreviewUrl\<close>. The asset's original is \<open>imageOriginalUrl\<close> when non-empty, else
  \<open>imageUrl\<close>; its original size is \<open>imageOriginalFileSize\<close> when non-zero, else
  recomputed; its preview is \<open>imagePreviewUrl\<close> with the stored \<open>imagePreviewFileSize\<close>
  when that url is non-empty, else preview and size are recomputed by the codec. The
  import migration fills in absent settings with the defaults, and an absent shot type.
\<close>

theorem migrate_legacy_conversion:
  assumes "variations s = []" and "truthyStr (imageUrl s) \<or> truthyStr (imageOriginalUrl s)"
  shows "migrateStoredShot c i t s
           = s\<lparr> imageVariations := Some [legacyVariation c i t s], selectedVariationId := Some i,
                imageUrl := None, imageOriginalUrl := None, imagePreviewUrl := None \<rparr>
       \<and> migrateImportedShot c i t s
           = s\<lparr> imageVariations := Some [legacyVariation c i t s], selectedVariationId := Some i,
                settings := (case settings s of
                               None \<Rightarrow> Some defaultSettings
                             | Some q \<Rightarrow> if truthyStr (shotType q) then Some q
                                         else Some (q\<lparr>shotType := Some ''Medium Shot''\<rparr>)),
                imageUrl := None, imageOriginalUrl := None, imagePreviewUrl := None \<rparr>
       \<and> vid (legacyVariation c i t s) = i
       \<and> (\<forall>u. imageOriginalUrl s = Some u \<and> u \<noteq> [] \<longrightarrow> originalUrl (legacyVariation c i t s) = u)
       \<and> (\<not> truthyStr (imageOriginalUrl s) \<longrightarrow>
            (\<forall>u. imageUrl s = Some u \<longrightarrow> originalUrl (legacyVariation c i t s) = u))
       \<and> (\<forall>n. imageOriginalFileSize s = Some n \<and> n \<noteq> 0 \<longrightarrow>
            originalFileSize (legacyVariation c i t s) = n)
       \<and> (\<not> truthyNum (imageOriginalFileSize s) \<longrightarrow>
            originalFileSize (legacyVariation c i t s)
              = calculateBase64Size (originalUrl (legacyVariation c i t s)))
       \<and> (\<forall>u. imagePreviewUrl s = Some u \<and> u \<noteq> [] \<longrightarrow>
            previewUrl (legacyVariation c i t s) = u
            \<and> previewFileSize (legacyVariation c i t s) = imagePreviewFileSize s)
       \<and> (\<not> truthyStr (imagePreviewUrl s) \<longrightarrow>
            previewUrl (legacyVariation c i t s) = c (originalUrl (legacyVariation c i t s))
            \<and> previewFileSize (legacyVariation c i t s)
                = Some (calculateBase64Size (c (originalUrl (legacyVariation c i t s)))))"
proof -
  note f = legacyVariation_fields [of c i t s]
  have 1: "vid (legacyVariation c i t s) = i" using f by blast
  have 2: "\<forall>u. imageOriginalUrl s = Some u \<and> u \<noteq> [] \<longrightarrow> originalUrl (legacyVariation c i t s) = u"
    using f by (simp add: orElseEmpty_def truthyStr_def)
  have 3: "\<not> truthyStr (imageOriginalUrl s) \<longrightarrow>
            (\<forall>u. imageUrl s = Some u \<longrightarrow> originalUrl (legacyVariation c i t s) = u)"
    using f by (simp add: orElseEmpty_def)
  have 4: "\<forall>n. imageOriginalFileSize s = Some n \<and> n \<noteq> 0 \<longrightarrow>
            originalFileSize (legacyVariation c i t s) = n"
    using f by (simp add: truthyNum_def)
  have 5: "\<not> truthyNum (imageOriginalFileSize s) \<longrightarrow>
            originalFileSize (legacyVariation c i t s)
              = calculateBase64Size (originalUrl (legacyVariation c i t s))"
    using f by simp
  have 6: "\<forall>u. imagePreviewUrl s = Some u \<and> u \<noteq> [] \<longrightarrow>
            previewUrl (legacyVariation c i t s) = u
            \<and> previewFileSize (legacyVariation c i t s) = imagePreviewFileSize s"
    using f by (simp add: truthyStr_def)
  have 7: "\<not> truthyStr (imagePreviewUrl s) \<longrightarrow>
            previewUrl (legacyVariation c i t s) = c (originalUrl (legacyVariation c i t s))
            \<and> previewFileSize (legacyVariation c i t s)
                = Some (calculateBase64Size (c (originalUrl (legacyVariation c i t s))))"
    using f by simp
  from migrateStoredShot_legacy [OF assms, of c i t] migrateImportedShot_legacy [OF assms, of c i t]
    1 2 3 4 5 6 7
  show ?thesis by blast
qed

theorem migrate_legacy_conversion_witness:
  "variations legacyShot = [] \<and> truthyStr (imageUrl legacyShot)
   \<and> imageVariations (migrateStoredShot id ''n'' 9 legacyShot)
       = Some [\<lparr> vid = ''n'', previewUrl = ''data:image/png;base64,TWFu'',
                  originalUrl = ''data:image/png;base64,TWFu'', previewFileSize = Some (39 / 2),
                  originalFileSize = 3, vCreatedAt = 9 \<rparr>]
   \<and> selectedVariationId (migrateImportedShot id ''n'' 9 legacyShot) = Some ''n''
   \<and> settings (migrateImportedShot id ''n'' 9 legacyShot) = Some defaultSettings
   \<and> imageUrl (migrateImportedShot id ''n'' 9 legacyShot) = None"
proof -
  have h1: "variations legacyShot = []"
    by (simp add: legacyShot_def variations_def)
  have h2: "truthyStr (imageUrl legacyShot)"
    by (simp add: legacyShot_def truthyStr_def)
  have v: "legacyVariation id ''n'' 9 legacyShot
       = \<lparr> vid = ''n'', previewUrl = ''data:image/png;base64,TWFu'',
                  originalUrl = ''data:image/png;base64,TWFu'', previewFileSize = Some (39 / 2),
                  originalFileSize = 3, vCreatedAt = 9 \<rparr>"
    by (simp add: legacyVariation_def legacyShot_def sampleShot_def orElseEmpty_def truthyStr_def
          calculateBase64Size_def padding_def endsWith_def Let_def)
  have s: "settings legacyShot = None" by (simp add: legacyShot_def)
  note t = migrate_legacy_conversion [OF h1 disjI1 [OF h2], of id "''n''" 9]
  from t have a: "migrateStoredShot id ''n'' 9 legacyShot
           = legacyShot\<lparr> imageVariations := Some [legacyVariation id ''n'' 9 legacyShot],
                selectedVariationId := Some ''n'',
                imageUrl := None, imageOriginalUrl := None, imagePreviewUrl := None \<rparr>"
    by blast
  from t have b: "migrateImportedShot id ''n'' 9 legacyShot
           = legacyShot\<lparr> imageVariations := Some [legacyVariation id ''n'' 9 legacyShot],
                selectedVariationId := Some ''n'',
                settings := (case settings legacyShot of
                               None \<Rightarrow> Some defaultSettings
                             | Some q \<Rightarrow> if truthyStr (shotType q) then Some q
                                         else Some (q\<lparr>shotType := Some ''Medium Shot''\<rparr>)),
                imageUrl := None, imageOriginalUrl := None, imagePreviewUrl := None \<rparr>"
    by blast
  show ?thesis using h1 h2 by (simp add: a b v s)
qed

subsection \<open>Import\<close>




lemma import_accepted:
  assumes "parsed = Some f" "truthyStr (fileId f)" "fileShots f = Some fs"
  shows "handleImportJson c u newId now parsed st =
           st\<lparr> projects :=
                  \<lparr> pid = newId, title = fileTitle f @ '' (Imported)'', idea = fileIdea f,
                    shots = map (\<lambda>(k, s). migrateImportedShot c (u k) now s) (enumerate 0 fs),
                    trashedShots = fileTrashedShots f, createdAt = fileCreatedAt f,
                    updatedAt = fileUpdatedAt f, isTrashed = fileIsTrashed f \<rparr> # projects st,
                globalError := None \<rparr>"
  using assms by (simp add: handleImportJson_def Let_def)



subsection \<open>Generate image\<close>

lemma upper_noImage: "toUpperCase noImageMessage = ''KH?NG TH? T?O ???C ?NH N?O.''"
  by (simp add: toUpperCase_def noImageMessage_def upperChar_def Let_def)

lemma handleApiError_noImage:
  "handleApiError (Some noImageMessage) st = st\<lparr>globalError := Some noImageMessage\<rparr>"
proof -
  have n: "noImageMessage \<noteq> []" by (simp add: noImageMessage_def)
  have a: "\<not> includesStr ''KH?NG TH? T?O ???C ?NH N?O.'' ''429''" by simp
  have b: "\<not> includesStr ''KH?NG TH? T?O ???C ?NH N?O.'' ''RESOURCE_EXHAUSTED''" by simp
  have c: "\<not> includesStr ''KH?NG TH? T?O ???C ?NH N?O.'' ''RATE LIMIT''" by simp
  have d: "\<not> includesStr ''KH?NG TH? T?O ???C ?NH N?O.'' ''PERMISSION_DENIED''" by simp
  have e: "\<not> includesStr ''KH?NG TH? T?O ???C ?NH N?O.'' ''API_KEY''" by simp
  have f: "\<not> includesStr ''KH?NG TH? T?O ???C ?NH N?O.'' ''403''" by simp
  show ?thesis
    by (simp add: handleApiError_def Let_def n upper_noImage a b c d e f del: includesStr.simps)
qed

lemma setGenerating_twice:
  "setGenerating sel sh b (setGenerating sel sh b' ps) = setGenerating sel sh b ps"
proof -
  have inner: "map (\<lambda>s. if sid s = sh then s\<lparr>isGeneratingImage := b\<rparr> else s)
                 (map (\<lambda>s. if sid s = sh then s\<lparr>isGeneratingImage := b'\<rparr> else s) ss)
               = map (\<lambda>s. if sid s = sh then s\<lparr>isGeneratingImage := b\<rparr> else s) ss" for ss
    by (induction ss) simp_all
  show ?thesis
    unfolding setGenerating_def by (induction ps) (simp_all add: inner)
qed

lemma setGenerating_variations:
  "map (map imageVariations \<circ> shots) (setGenerating sel sh b ps)
     = map (map imageVariations \<circ> shots) ps"
proof -
  have inner: "map imageVariations (map (\<lambda>s. if sid s = sh then s\<lparr>isGeneratingImage := b\<rparr> else s) ss)
               = map imageVariations ss" for ss
    by (induction ss) simp_all
  show ?thesis
    unfolding setGenerating_def by (induction ps) (simp_all add: inner)
qed

lemma setGenerating_flag:
  assumes "p \<in> set (setGenerating sel sh b ps)" "Some (pid p) = sel" "s \<in> set (shots p)" "sid s = sh"
  shows "isGeneratingImage s = b"
proof -
  define g :: "Shot \<Rightarrow> Shot" where
    "g = (\<lambda>s. if sid s = sh then s\<lparr>isGeneratingImage := b\<rparr> else s)"
  define f :: "Project \<Rightarrow> Project" where
    "f = (\<lambda>p. if Some (pid p) \<noteq> sel then p else p\<lparr>shots := map g (shots p)\<rparr>)"
  have "setGenerating sel sh b ps = map f ps"
    by (simp add: setGenerating_def f_def g_def)
  with assms(1) obtain q where q: "q \<in> set ps" "p = f q" by auto
  have "pid (f q) = pid q" by (simp add: f_def)
  with q(2) assms(2) have "p = q\<lparr>shots := map g (shots q)\<rparr>" by (simp add: f_def)
  with assms(3) obtain s0 where "s = g s0" by auto
  with assms(4) show ?thesis by (simp add: g_def split: if_splits)
qed

text \<open>The collection after a successful generation, written as one map.\<close>

lemma addVariations_total:
  assumes present: "\<forall>p\<in>set ps. Some (pid p) = sel \<longrightarrow>
                      (\<forall>s\<in>set (shots p). sid s = sh \<longrightarrow> imageVariations s \<noteq> None)"
  shows "addVariations sel sh now (v # vs) ps =
           Inr (map (\<lambda>p. if Some (pid p) \<noteq> sel then p
                          else p\<lparr> updatedAt := now,
                                  shots := map (\<lambda>s. if sid s \<noteq> sh then s
                                                      else s\<lparr> imageVariations := Some ((v # vs) @ variations s),
                                                             selectedVariationId := Some (vid v),
                                                             isGeneratingImage := False \<rparr>)
                                               (shots p) \<rparr>) ps)"
proof -
  define g :: "Shot \<Rightarrow> Shot" where
    "g = (\<lambda>s. if sid s \<noteq> sh then s
              else s\<lparr> imageVariations := Some ((v # vs) @ variations s),
                     selectedVariationId := Some (vid v), isGeneratingImage := False \<rparr>)"
  define f :: "Project \<Rightarrow> Project" where
    "f = (\<lambda>p. if Some (pid p) \<noteq> sel then p else p\<lparr>updatedAt := now, shots := map g (shots p)\<rparr>)"
  let ?gE = "\<lambda>s. if sid s \<noteq> sh then Inr s else prependTo (v # vs) s"
  let ?fE = "\<lambda>p. if Some (pid p) \<noteq> sel then Inr p
                 else (case mapE ?gE (shots p) of
                         Inl e \<Rightarrow> Inl e
                       | Inr ss \<Rightarrow> Inr (p\<lparr>updatedAt := now, shots := ss\<rparr>))"
  have shot: "?gE s = Inr (g s)" if "sid s = sh \<longrightarrow> imageVariations s \<noteq> None" for s
  proof (cases "sid s \<noteq> sh")
    case True
    then show ?thesis by (simp add: g_def)
  next
    case False
    with that obtain old where old: "imageVariations s = Some old" by auto
    then have "prependTo (v # vs) s = Inr (g s)"
      using False by (simp add: prependTo_def g_def variations_def)
    with False show ?thesis by simp
  qed
  have proj: "?fE p = Inr (f p)" if "p \<in> set ps" for p
  proof (cases "Some (pid p) \<noteq> sel")
    case True
    then show ?thesis by (simp add: f_def)
  next
    case False
    with present that have "\<forall>s\<in>set (shots p). sid s = sh \<longrightarrow> imageVariations s \<noteq> None"
      by blast
    then have "\<forall>s\<in>set (shots p). ?gE s = Inr (g s)" using shot by blast
    then have "mapE ?gE (shots p) = Inr (map g (shots p))" by (rule mapE_total)
    with False show ?thesis by (simp add: f_def)
  qed
  have "mapE ?fE ps = Inr (map f ps)"
    by (rule mapE_total) (use proj in blast)
  then show ?thesis
    unfolding addVariations_def f_def g_def .
qed

lemma generate_admitted:
  assumes "truthyStr (selectedProjectId st)" "\<not> isApiBusy st" "apiThrottle st = 0"
    and "find (\<lambda>p. Some (pid p) = selectedProjectId st) (projects st) = Some project"
    and "find (\<lambda>s. sid s = shotId) (shots project) = Some shot"
    and "resolveReference project referenceShotId customReference = Inr r"
  shows "handleGenerateImage c u now shotId referenceShotId customReference r1 r2 st =
           handleGenerateImage_settle (selectedProjectId st) shotId (apiKeyStatus st) c u now r1 r2
             (handleGenerateImage_begin shot r shotId st)"
  using assms by (simp add: handleGenerateImage_def)

lemma generate_both_fail:
  "handleGenerateImage_settle sel shotId cs c u now (Rejected m1) (Rejected m2) st1 =
     Inr (finallyThrottle
            ((handleApiError (Some noImageMessage) st1)
               \<lparr>projects := setGenerating sel shotId False (projects st1)\<rparr>))"
  by (simp add: handleGenerateImage_settle_def successfulImages_def)

lemma successful_one:
  "successfulImages (Fulfilled img) (Rejected m) = [img]"
  "successfulImages (Rejected m) (Fulfilled img) = [img]"
  by (simp_all add: successfulImages_def)

lemma generate_one_success:
  assumes one: "successfulImages r1 r2 = [img]"
    and present: "\<forall>p\<in>set (projects st1). Some (pid p) = sel \<longrightarrow>
                      (\<forall>s\<in>set (shots p). sid s = shotId \<longrightarrow> imageVariations s \<noteq> None)"
  shows "handleGenerateImage_settle sel shotId cs c u now r1 r2 st1 =
     Inr (finallyThrottle (resetWarning cs
            (st1\<lparr>projects :=
               map (\<lambda>p. if Some (pid p) \<noteq> sel then p
                          else p\<lparr> updatedAt := now,
                                  shots := map (\<lambda>s. if sid s \<noteq> shotId then s
                                                      else s\<lparr> imageVariations := Some ([processAndSaveImage c (u 0) now img] @ variations s),
                                                             selectedVariationId := Some (vid (processAndSaveImage c (u 0) now img)),
                                                             isGeneratingImage := False \<rparr>)
                                               (shots p) \<rparr>) (projects st1)\<rparr>)))"
proof -
  have nv: "map (\<lambda>(k, img). processAndSaveImage c (u k) now img) (enumerate 0 [img])
              = [processAndSaveImage c (u 0) now img]"
    by simp
  show ?thesis
    unfolding handleGenerateImage_settle_def Let_def one nv
    by (simp add: addVariations_total [OF present])
qed

lemma setGenerating_present:
  assumes present: "\<forall>p\<in>set ps. Some (pid p) = sel \<longrightarrow>
                      (\<forall>s\<in>set (shots p). sid s = sh \<longrightarrow> imageVariations s \<noteq> None)"
  shows "\<forall>p\<in>set (setGenerating sel sh b ps). Some (pid p) = sel \<longrightarrow>
                      (\<forall>s\<in>set (shots p). sid s = sh \<longrightarrow> imageVariations s \<noteq> None)"
proof (intro ballI impI)
  fix p s
  assume p: "p \<in> set (setGenerating sel sh b ps)" and sel: "Some (pid p) = sel"
    and s: "s \<in> set (shots p)" and sh: "sid s = sh"
  define g :: "Shot \<Rightarrow> Shot" where
    "g = (\<lambda>s. if sid s = sh then s\<lparr>isGeneratingImage := b\<rparr> else s)"
  define f :: "Project \<Rightarrow> Project" where
    "f = (\<lambda>p. if Some (pid p) \<noteq> sel then p else p\<lparr>shots := map g (shots p)\<rparr>)"
  have "setGenerating sel sh b ps = map f ps"
    by (simp add: setGenerating_def f_def g_def)
  with p obtain q where q: "q \<in> set ps" "p = f q" by auto
  have pq: "pid (f q) = pid q" by (simp add: f_def)
  with q(2) sel have e: "p = q\<lparr>shots := map g (shots q)\<rparr>" and qsel: "Some (pid q) = sel"
    by (simp_all add: f_def)
  from e s obtain s0 where s0: "s0 \<in> set (shots q)" "s = g s0" by auto
  have "sid (g s0) = sid s0" by (simp add: g_def)
  with s0(2) sh have "sid s0 = sh" by simp
  with present q(1) qsel s0(1) have "imageVariations s0 \<noteq> None" by blast
  moreover have "imageVariations (g s0) = imageVariations s0" by (simp add: g_def)
  ultimately show "imageVariations s \<noteq> None" using s0(2) by simp
qed

lemma prepend_after_mark:
  "map (\<lambda>p. if Some (pid p) \<noteq> sel then p
             else p\<lparr> updatedAt := now,
                     shots := map (\<lambda>s. if sid s \<noteq> sh then s
                                         else s\<lparr> imageVariations := Some (nv @ variations s),
                                                selectedVariationId := x,
                                                isGeneratingImage := False \<rparr>)
                                  (shots p) \<rparr>)
       (setGenerating sel sh b ps)
   = map (\<lambda>p. if Some (pid p) \<noteq> sel then p
             else p\<lparr> updatedAt := now,
                     shots := map (\<lambda>s. if sid s \<noteq> sh then s
                                         else s\<lparr> imageVariations := Some (nv @ variations s),
                                                selectedVariationId := x,
                                                isGeneratingImage := False \<rparr>)
                                  (shots p) \<rparr>)
       ps"
proof -
  have inner: "map (\<lambda>s. if sid s \<noteq> sh then s
                         else s\<lparr> imageVariations := Some (nv @ variations s),
                                selectedVariationId := x, isGeneratingImage := False \<rparr>)
                 (map (\<lambda>s. if sid s = sh then s\<lparr>isGeneratingImage := b\<rparr> else s) ss)
               = map (\<lambda>s. if sid s \<noteq> sh then s
                         else s\<lparr> imageVariations := Some (nv @ variations s),
                                selectedVariationId := x, isGeneratingImage := False \<rparr>) ss" for ss
    by (induction ss) (simp_all add: variations_def)
  define G :: "Shot \<Rightarrow> Shot" where
    "G = (\<lambda>s. if sid s \<noteq> sh then s
              else s\<lparr> imageVariations := Some (nv @ variations s),
                     selectedVariationId := x, isGeneratingImage := False \<rparr>)"
  define g :: "Shot \<Rightarrow> Shot" where
    "g = (\<lambda>s. if sid s = sh then s\<lparr>isGeneratingImage := b\<rparr> else s)"
  define F :: "Project \<Rightarrow> Project" where
    "F = (\<lambda>p. if Some (pid p) \<noteq> sel then p else p\<lparr>updatedAt := now, shots := map G (shots p)\<rparr>)"
  define f :: "Project \<Rightarrow> Project" where
    "f = (\<lambda>p. if Some (pid p) \<noteq> sel then p else p\<lparr>shots := map g (shots p)\<rparr>)"
  have GG: "map (G \<circ> g) ss = map G ss" for ss
    using inner [of ss] by (simp only: G_def g_def map_map [symmetric])
  have "F (f p) = F p" for p
    by (cases "Some (pid p) \<noteq> sel") (simp_all add: F_def f_def GG)
  then have "map F (map f ps) = map F ps" by simp
  then show ?thesis
    unfolding setGenerating_def F_def f_def G_def g_def .
qed

text \<open>
  C6: when the handler is admitted and finds its shot, then (a) if both generation
  attempts fail, no shot's \<open>imageVariations\<close> changes, the target shot's
  \<open>isGeneratingImage\<close> is false afterwards and the error message is surfaced in
  \<open>globalError\<close>; (b) if exactly one attempt succeeds, exactly one new variation is put
  in front of the target shot's variations and is the selected one. For (b) the target
  shot carries its \<open>imageVariations\<close> field, as the Shot type requires.
\<close>

theorem generate_image_outcome:
  assumes "truthyStr (selectedProjectId st)" and "\<not> isApiBusy st" and "apiThrottle st = 0"
    and "find (\<lambda>p. Some (pid p) = selectedProjectId st) (projects st) = Some project"
    and "find (\<lambda>s. sid s = shotId) (shots project) = Some shot"
    and "resolveReference project referenceShotId customReference = Inr r"
  shows "(\<exists>st'. handleGenerateImage c u now shotId referenceShotId customReference
                  (Rejected m1) (Rejected m2) st = Inr st'
            \<and> projects st' = setGenerating (selectedProjectId st) shotId False (projects st)
            \<and> map (map imageVariations \<circ> shots) (projects st')
                = map (map imageVariations \<circ> shots) (projects st)
            \<and> (\<forall>p\<in>set (projects st'). Some (pid p) = selectedProjectId st \<longrightarrow>
                  (\<forall>s\<in>set (shots p). sid s = shotId \<longrightarrow> \<not> isGeneratingImage s))
            \<and> globalError st' = Some noImageMessage
            \<and> \<not> isApiBusy st')
       \<and> ((\<forall>p\<in>set (projects st). Some (pid p) = selectedProjectId st \<longrightarrow>
              (\<forall>s\<in>set (shots p). sid s = shotId \<longrightarrow> imageVariations s \<noteq> None))
            \<and> (r1 = Fulfilled img \<and> r2 = Rejected m \<or> r1 = Rejected m \<and> r2 = Fulfilled img) \<longrightarrow>
           (\<exists>st'. handleGenerateImage c u now shotId referenceShotId customReference r1 r2 st = Inr st'
              \<and> projects st' =
                  map (\<lambda>p. if Some (pid p) \<noteq> selectedProjectId st then p
                            else p\<lparr> updatedAt := now,
                                    shots := map (\<lambda>s. if sid s \<noteq> shotId then s
                                                        else s\<lparr> imageVariations :=
                                                                 Some (processAndSaveImage c (u 0) now img
                                                                         # variations s),
                                                               selectedVariationId :=
                                                                 Some (vid (processAndSaveImage c (u 0) now img)),
                                                               isGeneratingImage := False \<rparr>)
                                                 (shots p) \<rparr>)
                      (projects st)))"
proof (intro conjI impI)
  let ?sel = "selectedProjectId st"
  let ?st1 = "handleGenerateImage_begin shot r shotId st"
  have p1: "projects ?st1 = setGenerating ?sel shotId True (projects st)"
    by (simp add: handleGenerateImage_begin_def)
  define st' where "st' = finallyThrottle
            ((handleApiError (Some noImageMessage) ?st1)
               \<lparr>projects := setGenerating ?sel shotId False (projects ?st1)\<rparr>)"
  have run: "handleGenerateImage c u now shotId referenceShotId customReference
                  (Rejected m1) (Rejected m2) st = Inr st'"
    unfolding st'_def generate_admitted [OF assms] by (rule generate_both_fail)
  have ps: "projects st' = setGenerating ?sel shotId False (projects st)"
    by (simp add: st'_def finallyThrottle_def p1 setGenerating_twice)
  have vs: "map (map imageVariations \<circ> shots) (projects st')
                = map (map imageVariations \<circ> shots) (projects st)"
    unfolding ps by (rule setGenerating_variations)
  have fl: "\<forall>p\<in>set (projects st'). Some (pid p) = ?sel \<longrightarrow>
                  (\<forall>s\<in>set (shots p). sid s = shotId \<longrightarrow> \<not> isGeneratingImage s)"
    unfolding ps using setGenerating_flag [of _ ?sel shotId False "projects st"] by blast
  have er: "globalError st' = Some noImageMessage"
    by (simp add: st'_def finallyThrottle_def handleApiError_noImage)
  have bu: "\<not> isApiBusy st'"
    by (simp add: st'_def finallyThrottle_def)
  from run ps vs fl er bu
  show "\<exists>st'. handleGenerateImage c u now shotId referenceShotId customReference
                  (Rejected m1) (Rejected m2) st = Inr st'
            \<and> projects st' = setGenerating (selectedProjectId st) shotId False (projects st)
            \<and> map (map imageVariations \<circ> shots) (projects st')
                = map (map imageVariations \<circ> shots) (projects st)
            \<and> (\<forall>p\<in>set (projects st'). Some (pid p) = selectedProjectId st \<longrightarrow>
                  (\<forall>s\<in>set (shots p). sid s = shotId \<longrightarrow> \<not> isGeneratingImage s))
            \<and> globalError st' = Some noImageMessage
            \<and> \<not> isApiBusy st'"
    by (intro exI [of _ st'] conjI)
next
  let ?sel = "selectedProjectId st"
  let ?st1 = "handleGenerateImage_begin shot r shotId st"
  let ?v = "processAndSaveImage c (u 0) now img"
  assume a: "(\<forall>p\<in>set (projects st). Some (pid p) = selectedProjectId st \<longrightarrow>
              (\<forall>s\<in>set (shots p). sid s = shotId \<longrightarrow> imageVariations s \<noteq> None))
            \<and> (r1 = Fulfilled img \<and> r2 = Rejected m \<or> r1 = Rejected m \<and> r2 = Fulfilled img)"
  have p1: "projects ?st1 = setGenerating ?sel shotId True (projects st)"
    by (simp add: handleGenerateImage_begin_def)
  from a have one: "successfulImages r1 r2 = [img]"
    using successful_one by metis
  from a have present: "\<forall>p\<in>set (projects ?st1). Some (pid p) = ?sel \<longrightarrow>
              (\<forall>s\<in>set (shots p). sid s = shotId \<longrightarrow> imageVariations s \<noteq> None)"
    unfolding p1 by (intro setGenerating_present) blast
  note run = generate_one_success [OF one present, of "apiKeyStatus st" c u now]
  show "\<exists>st'. handleGenerateImage c u now shotId referenceShotId customReference r1 r2 st = Inr st'
              \<and> projects st' =
                  map (\<lambda>p. if Some (pid p) \<noteq> selectedProjectId st then p
                            else p\<lparr> updatedAt := now,
                                    shots := map (\<lambda>s. if sid s \<noteq> shotId then s
                                                        else s\<lparr> imageVariations :=
                                                                 Some (processAndSaveImage c (u 0) now img
                                                                         # variations s),
                                                               selectedVariationId :=
                                                                 Some (vid (processAndSaveImage c (u 0) now img)),
                                                               isGeneratingImage := False \<rparr>)
                                                 (shots p) \<rparr>)
                      (projects st)"
    unfolding generate_admitted [OF assms] run
    using prepend_after_mark [where sel = ?sel and now = now and sh = shotId and nv = "[?v]"
        and x = "Some (vid ?v)" and b = True and ps = "projects st"]
    by (simp add: p1)
qed

theorem generate_image_outcome_witness:
  "truthyStr (selectedProjectId imagedState) \<and> \<not> isApiBusy imagedState
   \<and> apiThrottle imagedState = 0
   \<and> find (\<lambda>p. Some (pid p) = selectedProjectId imagedState) (projects imagedState)
        = Some imagedProject
   \<and> find (\<lambda>s. sid s = ''a'') (shots imagedProject) = Some imagedShot
   \<and> resolveReference imagedProject None None = Inr None
   \<and> (case handleGenerateImage id sampleUuid 9 ''a'' None None
              (Rejected (Some ''overloaded'')) (Rejected None) imagedState of
         Inl e \<Rightarrow> False
       | Inr st' \<Rightarrow> globalError st' = Some noImageMessage \<and> \<not> isApiBusy st'
                    \<and> map (map imageVariations \<circ> shots) (projects st')
                        = [ [Some [sampleAsset ''v1'', sampleAsset ''v2''] ] ]
                    \<and> map (map isGeneratingImage \<circ> shots) (projects st') = [ [False] ])
   \<and> (case handleGenerateImage id sampleUuid 9 ''a'' None None
              (Rejected (Some ''overloaded'')) (Fulfilled ''data:image/png;base64,TWFu'')
              imagedState of
         Inl e \<Rightarrow> False
       | Inr st' \<Rightarrow> map (map (map vid \<circ> variations) \<circ> shots) (projects st')
                        = [ [ [''n0'', ''v1'', ''v2''] ] ]
                    \<and> map (map selectedVariationId \<circ> shots) (projects st') = [ [Some ''n0''] ])"
proof -
  have h1: "truthyStr (selectedProjectId imagedState)"
    by (simp add: imagedState_def sampleState_def truthyStr_def)
  have h2: "\<not> isApiBusy imagedState" by (simp add: imagedState_def sampleState_def)
  have h3: "apiThrottle imagedState = 0" by (simp add: imagedState_def sampleState_def)
  have h4: "find (\<lambda>p. Some (pid p) = selectedProjectId imagedState) (projects imagedState)
              = Some imagedProject"
    by (simp add: imagedState_def sampleState_def imagedProject_def sampleProject_def)
  have h5: "find (\<lambda>s. sid s = ''a'') (shots imagedProject) = Some imagedShot"
    by (simp add: imagedProject_def sampleProject_def imagedShot_def sampleShot_def)
  have h6: "resolveReference imagedProject None None = Inr None"
    by (simp add: resolveReference_def truthyStr_def)
  have ps: "projects imagedState = [imagedProject]" "selectedProjectId imagedState = Some ''p1''"
    by (simp_all add: imagedState_def sampleState_def)
  have sh: "shots imagedProject = [imagedShot]" "pid imagedProject = ''p1''"
    by (simp_all add: imagedProject_def sampleProject_def)
  have iv: "imageVariations imagedShot = Some [sampleAsset ''v1'', sampleAsset ''v2'']"
    "sid imagedShot = ''a''" "selectedVariationId imagedShot = Some ''v1''"
    by (simp_all add: imagedShot_def sampleShot_def)
  have present: "\<forall>p\<in>set (projects imagedState). Some (pid p) = selectedProjectId imagedState \<longrightarrow>
              (\<forall>s\<in>set (shots p). sid s = ''a'' \<longrightarrow> imageVariations s \<noteq> None)"
    by (simp add: ps sh iv)
  note t = generate_image_outcome [OF h1 h2 h3 h4 h5 h6, where c = id and u = sampleUuid and now = 9
      and ?m1.0 = "Some ''overloaded''" and ?m2.0 = None
      and ?r1.0 = "Rejected (Some ''overloaded'')"
      and ?r2.0 = "Fulfilled ''data:image/png;base64,TWFu''"
      and img = "''data:image/png;base64,TWFu''" and m = "Some ''overloaded''"]
  from t obtain st1 where st1:
     "handleGenerateImage id sampleUuid 9 ''a'' None None
              (Rejected (Some ''overloaded'')) (Rejected None) imagedState = Inr st1"
     "projects st1 = setGenerating (selectedProjectId imagedState) ''a'' False (projects imagedState)"
     "map (map imageVariations \<circ> shots) (projects st1)
                = map (map imageVariations \<circ> shots) (projects imagedState)"
     "globalError st1 = Some noImageMessage" "\<not> isApiBusy st1"
    by blast
  have a: "case handleGenerateImage id sampleUuid 9 ''a'' None None
              (Rejected (Some ''overloaded'')) (Rejected None) imagedState of
         Inl e \<Rightarrow> False
       | Inr st' \<Rightarrow> globalError st' = Some noImageMessage \<and> \<not> isApiBusy st'
                    \<and> map (map imageVariations \<circ> shots) (projects st')
                        = [ [Some [sampleAsset ''v1'', sampleAsset ''v2''] ] ]
                    \<and> map (map isGeneratingImage \<circ> shots) (projects st') = [ [False] ]"
    using st1(3,4,5) by (simp add: st1(1) st1(2) ps sh iv setGenerating_def)
  from t present obtain st2 where st2:
     "handleGenerateImage id sampleUuid 9 ''a'' None None
              (Rejected (Some ''overloaded'')) (Fulfilled ''data:image/png;base64,TWFu'')
              imagedState = Inr st2"
     "projects st2 =
        map (\<lambda>p. if Some (pid p) \<noteq> selectedProjectId imagedState then p
                  else p\<lparr> updatedAt := 9,
                          shots := map (\<lambda>s. if sid s \<noteq> ''a'' then s
                                              else s\<lparr> imageVariations :=
                                                       Some (processAndSaveImage id (sampleUuid 0) 9 ''data:image/png;base64,TWFu''
                                                               # variations s),
                                                     selectedVariationId :=
                                                       Some (vid (processAndSaveImage id (sampleUuid 0) 9 ''data:image/png;base64,TWFu'')),
                                                     isGeneratingImage := False \<rparr>)
                                       (shots p) \<rparr>)
            (projects imagedState)"
    by blast
  have v: "vid (processAndSaveImage id (sampleUuid 0) 9 ''data:image/png;base64,TWFu'') = ''n0''"
    by (simp add: processAndSaveImage_def sampleUuid_def Let_def)
  have b: "case handleGenerateImage id sampleUuid 9 ''a'' None None
              (Rejected (Some ''overloaded'')) (Fulfilled ''data:image/png;base64,TWFu'')
              imagedState of
         Inl e \<Rightarrow> False
       | Inr st' \<Rightarrow> map (map (map vid \<circ> variations) \<circ> shots) (projects st')
                        = [ [ [''n0'', ''v1'', ''v2''] ] ]
                    \<and> map (map selectedVariationId \<circ> shots) (projects st') = [ [Some ''n0''] ]"
    by (simp add: st2(1) st2(2) ps sh iv v variations_def sampleAsset_def)
  from h1 h2 h3 h4 h5 h6 a b show ?thesis by (intro conjI)
qed

subsection \<open>Gating of the AI handlers\<close>

text \<open>
  C7, as the specification states it, fails: no handler reads the rate-limit cooldown
  counter. Three seconds into a cooldown (57 left, throttle back to zero, not busy),
  create project and get suggestions call the collaborator.
\<close>

theorem cooldown_not_checked_counterexample:
  "rateLimitCooldown coolingState > 0
   \<and> handleCreateProject sampleUuid ''new'' 9 (Rejected (Some ''quota'')) coolingState \<noteq> coolingState
   \<and> aiCalls (handleCreateProject sampleUuid ''new'' 9 (Rejected (Some ''quota'')) coolingState)
        = [GenerateScriptBreakdown ''a heist'']
   \<and> aiCalls (fst (handleGetSuggestionsForShot ''a heist'' ''the vault'' (Fulfilled [''add rain''])
                      coolingState))
        = [GetScriptSuggestions ''a heist'' ''the vault'']"
proof -
  have t: "trim ''a heist'' \<noteq> []" by (simp add: trim_def isSpace_def)
  have a: "aiCalls (handleCreateProject sampleUuid ''new'' 9 (Rejected (Some ''quota'')) coolingState)
        = [GenerateScriptBreakdown ''a heist'']"
    using t
    by (simp add: handleCreateProject_def handleCreateProject_settle_def
          handleCreateProject_begin_def finallyThrottle_def handleApiError_def Let_def
          coolingState_def sampleState_def)
  have b: "aiCalls (fst (handleGetSuggestionsForShot ''a heist'' ''the vault'' (Fulfilled [''add rain''])
                      coolingState))
        = [GetScriptSuggestions ''a heist'' ''the vault'']"
    by (simp add: handleGetSuggestionsForShot_def handleGetSuggestionsForShot_settle_def
          handleGetSuggestionsForShot_begin_def finallyThrottle_def
          coolingState_def sampleState_def)
  have c: "aiCalls coolingState = []" by (simp add: coolingState_def sampleState_def)
  have d: "rateLimitCooldown coolingState > 0" by (simp add: coolingState_def)
  from a c have "handleCreateProject sampleUuid ''new'' 9 (Rejected (Some ''quota'')) coolingState \<noteq> coolingState"
    by auto
  with a b d show ?thesis by simp
qed

lemma generate_settle_throttle:
  assumes "handleGenerateImage_settle sel sh cs c u now r1 r2 st = Inr st'"
  shows "apiThrottle st' = 3 \<and> \<not> isApiBusy st'"
proof (cases "successfulImages r1 r2 = []")
  case True
  with assms show ?thesis by (auto simp add: handleGenerateImage_settle_def)
next
  case False
  let ?nv = "map (\<lambda>(k, img). processAndSaveImage c (u k) now img)
                 (enumerate 0 (successfulImages r1 r2))"
  from False assms obtain ps where
    e: "finallyThrottle (resetWarning cs (st\<lparr>projects := ps\<rparr>)) = st'"
    by (cases "addVariations sel sh now ?nv (projects st)")
       (simp_all add: handleGenerateImage_settle_def Let_def)
  show ?thesis unfolding e [symmetric] by simp
qed

lemma edit_settle_throttle:
  assumes "handleEditShotImage_settle sel sh cs c i now res st = Inr st'"
  shows "apiThrottle st' = 3 \<and> \<not> isApiBusy st'"
proof (cases res)
  case (Rejected m)
  with assms show ?thesis by (auto simp add: handleEditShotImage_settle_def)
next
  case (Fulfilled img)
  let ?nv = "[processAndSaveImage c i now img]"
  from Fulfilled assms obtain ps where
    e: "finallyThrottle (resetWarning cs (st\<lparr>projects := ps\<rparr>)) = st'"
    by (cases "addVariations sel sh now ?nv (projects st)")
       (simp_all add: handleEditShotImage_settle_def Let_def)
  show ?thesis unfolding e [symmetric] by simp
qed

lemma throttle_ticks:
  assumes "apiThrottle st = 3"
  shows "apiThrottle (throttleTick st) = 2"
    and "apiThrottle (throttleTick (throttleTick st)) = 1"
    and "apiThrottle (throttleTick (throttleTick (throttleTick st))) = 0"
  using assms by (simp_all add: throttleTick_def)

text \<open>
  C7 (amended): each AI handler (create project, generate image, edit image, update
  description, get suggestions) returns the state unchanged, collaborator log
  included, whenever the busy flag is set or the throttle counter is above zero. The
  handlers do not test the cooldown counter; a cooldown above zero disables the
  create-project button, as busy and throttle do. Once an AI call has settled, with
  success or failure, the busy flag is cleared and the throttle counter is 3; it is
  above zero until the third tick, so no AI handler is admitted before.
\<close>

theorem ai_gating:
  "(isApiBusy st \<or> apiThrottle st > 0 \<longrightarrow>
      handleCreateProject u newId now rb st = st
      \<and> handleGenerateImage c u now shotId referenceShotId customReference r1 r2 st = Inr st
      \<and> handleEditShotImage c i now shotId instruction re st = Inr st
      \<and> handleUpdateShotDescription now shotId newDescription rp st = st
      \<and> handleGetSuggestionsForShot projectIdea currentDescription rs st = (st, None))
   \<and> apiThrottle (handleCreateProject_settle capturedIdea cs u newId now rb st) = 3
   \<and> \<not> isApiBusy (handleCreateProject_settle capturedIdea cs u newId now rb st)
   \<and> (\<forall>st'. handleGenerateImage_settle sel shotId cs c u now r1 r2 st = Inr st'
          \<longrightarrow> apiThrottle st' = 3 \<and> \<not> isApiBusy st')
   \<and> (\<forall>st'. handleEditShotImage_settle sel shotId cs c i now re st = Inr st'
          \<longrightarrow> apiThrottle st' = 3 \<and> \<not> isApiBusy st')
   \<and> apiThrottle (handleUpdateShotDescription_settle sel shotId cs rp st) = 3
   \<and> \<not> isApiBusy (handleUpdateShotDescription_settle sel shotId cs rp st)
   \<and> apiThrottle (fst (handleGetSuggestionsForShot_settle rs st)) = 3
   \<and> \<not> isApiBusy (fst (handleGetSuggestionsForShot_settle rs st))
   \<and> (apiThrottle st = 3 \<longrightarrow>
        apiThrottle (throttleTick st) > 0
        \<and> apiThrottle (throttleTick (throttleTick st)) > 0
        \<and> apiThrottle (throttleTick (throttleTick (throttleTick st))) = 0)
   \<and> (isApiBusy st \<or> rateLimitCooldown st > 0 \<or> apiThrottle st > 0 \<longrightarrow> createProjectDisabled st)"
proof -
  have gate: "handleCreateProject u newId now rb st = st
      \<and> handleGenerateImage c u now shotId referenceShotId customReference r1 r2 st = Inr st
      \<and> handleEditShotImage c i now shotId instruction re st = Inr st
      \<and> handleUpdateShotDescription now shotId newDescription rp st = st
      \<and> handleGetSuggestionsForShot projectIdea currentDescription rs st = (st, None)"
    if "isApiBusy st \<or> apiThrottle st > 0"
    using that
    by (auto simp add: handleCreateProject_def handleGenerateImage_def handleEditShotImage_def
          handleUpdateShotDescription_def handleGetSuggestionsForShot_def)
  have create: "apiThrottle (handleCreateProject_settle capturedIdea cs u newId now rb st) = 3"
      "\<not> isApiBusy (handleCreateProject_settle capturedIdea cs u newId now rb st)"
    by (simp_all add: handleCreateProject_settle_def)
  have describe: "apiThrottle (handleUpdateShotDescription_settle sel shotId cs rp st) = 3"
      "\<not> isApiBusy (handleUpdateShotDescription_settle sel shotId cs rp st)"
    by (simp_all add: handleUpdateShotDescription_settle_def)
  have suggest: "apiThrottle (fst (handleGetSuggestionsForShot_settle rs st)) = 3"
      "\<not> isApiBusy (fst (handleGetSuggestionsForShot_settle rs st))"
    by (simp_all add: handleGetSuggestionsForShot_settle_def split: outcome.split)
  have window: "apiThrottle (throttleTick st) > 0
        \<and> apiThrottle (throttleTick (throttleTick st)) > 0
        \<and> apiThrottle (throttleTick (throttleTick (throttleTick st))) = 0"
    if "apiThrottle st = 3"
    using throttle_ticks [OF that] by simp
  have button: "createProjectDisabled st"
    if "isApiBusy st \<or> rateLimitCooldown st > 0 \<or> apiThrottle st > 0"
    using that by (auto simp add: createProjectDisabled_def)
  from gate create describe suggest window button
    generate_settle_throttle [of sel shotId cs c u now r1 r2 st]
    edit_settle_throttle [of sel shotId cs c i now re st]
  show ?thesis by (intro conjI impI allI) blast+
qed

theorem ai_gating_witness:
  "isApiBusy (imagedState\<lparr>isApiBusy := True\<rparr>)
   \<and> handleGenerateImage id sampleUuid 9 ''a'' None None
        (Fulfilled ''data:image/png;base64,TWFu'') (Fulfilled ''data:image/png;base64,TWE='')
        (imagedState\<lparr>isApiBusy := True\<rparr>) = Inr (imagedState\<lparr>isApiBusy := True\<rparr>)
   \<and> handleGetSuggestionsForShot ''a heist'' ''the vault'' (Fulfilled [''add rain''])
        (imagedState\<lparr>isApiBusy := True\<rparr>) = (imagedState\<lparr>isApiBusy := True\<rparr>, None)
   \<and> apiThrottle (finallyThrottle coolingState) = 3
   \<and> handleCreateProject sampleUuid ''new'' 9 (Fulfilled []) (finallyThrottle coolingState)
        = finallyThrottle coolingState
   \<and> apiThrottle (throttleTick (throttleTick (finallyThrottle coolingState))) > 0
   \<and> apiThrottle (throttleTick (throttleTick (throttleTick (finallyThrottle coolingState)))) = 0
   \<and> rateLimitCooldown coolingState > 0 \<and> createProjectDisabled coolingState
   \<and> (case handleGenerateImage_settle (Some ''p1'') ''a'' active id sampleUuid 9
              (Rejected None) (Rejected None) imagedState of
         Inl e \<Rightarrow> False | Inr st' \<Rightarrow> apiThrottle st' = 3 \<and> \<not> isApiBusy st')"
proof -
  let ?busy = "imagedState\<lparr>isApiBusy := True\<rparr>"
  let ?thr = "finallyThrottle coolingState"
  have b: "isApiBusy ?busy" by simp
  have t3: "apiThrottle ?thr = 3" by (simp add: finallyThrottle_def)
  have cd: "rateLimitCooldown coolingState > 0" by (simp add: coolingState_def)
  note g1 = ai_gating [where st = ?busy
      and ?r1.0 = "Fulfilled ''data:image/png;base64,TWFu''"
      and ?r2.0 = "Fulfilled ''data:image/png;base64,TWE=''"
      and c = id and u = sampleUuid and now = 9
      and shotId = "''a''" and referenceShotId = None and customReference = None
      and i = "''n1''" and instruction = "''make it rain''" and re = "Rejected None"
      and newDescription = "''the vault''" and rp = "Rejected None"
      and projectIdea = "''a heist''" and currentDescription = "''the vault''"
      and rs = "Fulfilled [''add rain'']" and newId = "''new''" and rb = "Fulfilled []"
      and capturedIdea = "''a heist''" and cs = active and sel = "Some ''p1''"]
  note g2 = ai_gating [where st = ?thr and ?r1.0 = "Rejected None" and ?r2.0 = "Rejected None"
      and c = id and u = sampleUuid and now = 9
      and shotId = "''a''" and referenceShotId = None and customReference = None
      and i = "''n1''" and instruction = "''make it rain''" and re = "Rejected None"
      and newDescription = "''the vault''" and rp = "Rejected None"
      and projectIdea = "''a heist''" and currentDescription = "''the vault''"
      and rs = "Fulfilled [''add rain'']" and newId = "''new''" and rb = "Fulfilled []"
      and capturedIdea = "''a heist''" and cs = active and sel = "Some ''p1''"]
  note g3 = ai_gating [where st = coolingState and ?r1.0 = "Rejected None" and ?r2.0 = "Rejected None"
      and c = id and u = sampleUuid and now = 9
      and shotId = "''a''" and referenceShotId = None and customReference = None
      and i = "''n1''" and instruction = "''make it rain''" and re = "Rejected None"
      and newDescription = "''the vault''" and rp = "Rejected None"
      and projectIdea = "''a heist''" and currentDescription = "''the vault''"
      and rs = "Fulfilled [''add rain'']" and newId = "''new''" and rb = "Fulfilled []"
      and capturedIdea = "''a heist''" and cs = active and sel = "Some ''p1''"]
  note g4 = ai_gating [where st = imagedState and ?r1.0 = "Rejected None" and ?r2.0 = "Rejected None"
      and c = id and u = sampleUuid and now = 9
      and shotId = "''a''" and referenceShotId = None and customReference = None
      and i = "''n1''" and instruction = "''make it rain''" and re = "Rejected None"
      and newDescription = "''the vault''" and rp = "Rejected None"
      and projectIdea = "''a heist''" and currentDescription = "''the vault''"
      and rs = "Fulfilled [''add rain'']" and newId = "''new''" and rb = "Fulfilled []"
      and capturedIdea = "''a heist''" and cs = active and sel = "Some ''p1''"]
  from g1 b have 1: "handleGenerateImage id sampleUuid 9 ''a'' None None
        (Fulfilled ''data:image/png;base64,TWFu'') (Fulfilled ''data:image/png;base64,TWE='')
        ?busy = Inr ?busy"
    by blast
  from g1 b have 2: "handleGetSuggestionsForShot ''a heist'' ''the vault'' (Fulfilled [''add rain''])
        ?busy = (?busy, None)"
    by blast
  from g2 t3 have 3: "handleCreateProject sampleUuid ''new'' 9 (Fulfilled []) ?thr = ?thr"
    by simp
  from g2 t3 have 4: "apiThrottle (throttleTick (throttleTick ?thr)) > 0"
    "apiThrottle (throttleTick (throttleTick (throttleTick ?thr))) = 0"
    by blast+
  from g3 cd have 5: "createProjectDisabled coolingState" by blast
  have "\<exists>st'. handleGenerateImage_settle (Some ''p1'') ''a'' active id sampleUuid 9
              (Rejected None) (Rejected None) imagedState = Inr st'"
    by (simp add: generate_both_fail)
  with g4 have 6: "case handleGenerateImage_settle (Some ''p1'') ''a'' active id sampleUuid 9
              (Rejected None) (Rejected None) imagedState of
         Inl e \<Rightarrow> False | Inr st' \<Rightarrow> apiThrottle st' = 3 \<and> \<not> isApiBusy st'"
    by auto
  from b 1 2 t3 3 4 cd 5 6 show ?thesis by (intro conjI)
qed

subsection \<open>Selected variation\<close>

lemma selectionValid_flag: "selectionValid (s\<lparr>isGeneratingImage := b\<rparr>) = selectionValid s"
  by (simp add: selectionValid_def variations_def split: option.split)

lemma allValid_setGenerating:
  "allSelectionsValid (setGenerating sel sh b ps) = allSelectionsValid ps"
proof -
  have inner: "list_all selectionValid
                 (map (\<lambda>s. if sid s = sh then s\<lparr>isGeneratingImage := b\<rparr> else s) ss)
               = list_all selectionValid ss" for ss
    by (induction ss) (simp_all add: selectionValid_flag)
  show ?thesis
    unfolding allSelectionsValid_def setGenerating_def
    by (induction ps) (simp_all add: inner)
qed

lemma prependTo_valid: "prependTo nv s = Inr s' \<Longrightarrow> selectionValid s'"
  by (auto simp add: prependTo_def selectionValid_def variations_def
        split: option.splits list.splits)

lemma addVariations_valid:
  assumes v: "allSelectionsValid ps" and r: "addVariations sel sh now nv ps = Inr ps'"
  shows "allSelectionsValid ps'"
proof -
  let ?g = "\<lambda>s. if sid s \<noteq> sh then Inr s else prependTo nv s"
  let ?f = "\<lambda>p. if Some (pid p) \<noteq> sel then Inr p
                else (case mapE ?g (shots p) of
                        Inl e \<Rightarrow> Inl e
                      | Inr ss \<Rightarrow> Inr (p\<lparr>updatedAt := now, shots := ss\<rparr>))"
  have shot: "selectionValid s'" if "?g s = Inr s'" "selectionValid s" for s s'
    using that prependTo_valid by (auto split: if_splits)
  have proj: "list_all selectionValid (shots p')"
    if "?f p = Inr p'" "list_all selectionValid (shots p)" for p p'
  proof (cases "Some (pid p) \<noteq> sel")
    case True
    with that show ?thesis by simp
  next
    case False
    with that(1) obtain ss where ss: "mapE ?g (shots p) = Inr ss" "shots p' = ss"
      by (auto split: sum.splits)
    from list_all2_transfer_all [OF mapE_Inr [OF ss(1)] that(2)] shot
    show ?thesis using ss(2) by blast
  qed
  from r have "list_all2 (\<lambda>p p'. ?f p = Inr p') ps ps'"
    unfolding addVariations_def by (rule mapE_Inr)
  from list_all2_transfer_all [OF this, of "\<lambda>p. list_all selectionValid (shots p)"
      "\<lambda>p. list_all selectionValid (shots p)"] v proj
  show ?thesis unfolding allSelectionsValid_def by blast
qed

lemma generate_settle_valid:
  assumes v: "allSelectionsValid (projects st)"
    and r: "handleGenerateImage_settle sel sh cs c u now r1 r2 st = Inr st'"
  shows "allSelectionsValid (projects st')"
proof (cases "successfulImages r1 r2 = []")
  case True
  with r have "projects st' = setGenerating sel sh False (projects st)"
    by (auto simp add: handleGenerateImage_settle_def)
  with v show ?thesis by (simp add: allValid_setGenerating)
next
  case False
  let ?nv = "map (\<lambda>(k, img). processAndSaveImage c (u k) now img)
                 (enumerate 0 (successfulImages r1 r2))"
  from False r obtain ps where ps: "addVariations sel sh now ?nv (projects st) = Inr ps"
    and st': "st' = finallyThrottle (resetWarning cs (st\<lparr>projects := ps\<rparr>))"
    by (cases "addVariations sel sh now ?nv (projects st)")
       (simp_all add: handleGenerateImage_settle_def Let_def)
  from addVariations_valid [OF v ps] show ?thesis by (simp add: st')
qed

lemma edit_settle_valid:
  assumes v: "allSelectionsValid (projects st)"
    and r: "handleEditShotImage_settle sel sh cs c i now res st = Inr st'"
  shows "allSelectionsValid (projects st')"
proof (cases res)
  case (Rejected m)
  with r have "projects st' = setGenerating sel sh False (projects st)"
    by (auto simp add: handleEditShotImage_settle_def)
  with v show ?thesis by (simp add: allValid_setGenerating)
next
  case (Fulfilled img)
  let ?nv = "[processAndSaveImage c i now img]"
  from Fulfilled r obtain ps where ps: "addVariations sel sh now ?nv (projects st) = Inr ps"
    and st': "st' = finallyThrottle (resetWarning cs (st\<lparr>projects := ps\<rparr>))"
    by (cases "addVariations sel sh now ?nv (projects st)")
       (simp_all add: handleEditShotImage_settle_def Let_def)
  from addVariations_valid [OF v ps] show ?thesis by (simp add: st')
qed

lemma generate_begin_valid:
  "allSelectionsValid (projects (handleGenerateImage_begin shot r sh st))
     = allSelectionsValid (projects st)"
  by (simp add: handleGenerateImage_begin_def allValid_setGenerating)

lemma edit_begin_valid:
  "allSelectionsValid (projects (handleEditShotImage_begin cur ins sh st))
     = allSelectionsValid (projects st)"
  by (simp add: handleEditShotImage_begin_def allValid_setGenerating)

lemma generate_valid:
  assumes "allSelectionsValid (projects st)"
    "handleGenerateImage c u now sh ref cust r1 r2 st = Inr st'"
  shows "allSelectionsValid (projects st')"
proof (cases "\<not> truthyStr (selectedProjectId st) \<or> isApiBusy st \<or> apiThrottle st > 0")
  case True
  with assms show ?thesis by (auto simp add: handleGenerateImage_def)
next
  case False
  show ?thesis
  proof (cases "find (\<lambda>p. Some (pid p) = selectedProjectId st) (projects st)")
    case None
    with False assms show ?thesis by (auto simp add: handleGenerateImage_def)
  next
    case (Some project)
    note P = this
    show ?thesis
    proof (cases "find (\<lambda>s. sid s = sh) (shots project)")
      case None
      with False P assms show ?thesis by (auto simp add: handleGenerateImage_def)
    next
      case (Some shot)
      note S = this
      show ?thesis
      proof (cases "resolveReference project ref cust")
        case (Inl e)
        with False P S assms(2) show ?thesis by (simp add: handleGenerateImage_def)
      next
        case (Inr r)
        with False P S assms(2)
        have "handleGenerateImage_settle (selectedProjectId st) sh (apiKeyStatus st) c u now r1 r2
                (handleGenerateImage_begin shot r sh st) = Inr st'"
          by (simp add: handleGenerateImage_def)
        with generate_settle_valid [of "handleGenerateImage_begin shot r sh st"] assms(1)
        show ?thesis by (simp add: generate_begin_valid)
      qed
    qed
  qed
qed

lemma edit_valid:
  assumes "allSelectionsValid (projects st)"
    "handleEditShotImage c i now sh ins res st = Inr st'"
  shows "allSelectionsValid (projects st')"
proof (cases "\<not> truthyStr (selectedProjectId st) \<or> isApiBusy st \<or> apiThrottle st > 0")
  case True
  with assms show ?thesis by (auto simp add: handleEditShotImage_def)
next
  case False
  show ?thesis
  proof (cases "find (\<lambda>p. Some (pid p) = selectedProjectId st) (projects st)")
    case None
    with False assms show ?thesis by (auto simp add: handleEditShotImage_def)
  next
    case (Some project)
    note P = this
    show ?thesis
    proof (cases "find (\<lambda>s. sid s = sh) (shots project)")
      case None
      with False P assms show ?thesis by (auto simp add: handleEditShotImage_def)
    next
      case (Some shot)
      note S = this
      show ?thesis
      proof (cases "truthyStr (selectedVariationId shot)")
        case False
        with \<open>\<not> (\<not> truthyStr (selectedProjectId st) \<or> isApiBusy st \<or> apiThrottle st > 0)\<close>
          P S assms show ?thesis by (auto simp add: handleEditShotImage_def)
      next
        case True
        note T = this
        show ?thesis
        proof (cases "imageVariations shot")
          case None
          with False P S T assms(2) show ?thesis by (simp add: handleEditShotImage_def)
        next
          case (Some vs)
          note V = this
          show ?thesis
          proof (cases "find (\<lambda>v. Some (vid v) = selectedVariationId shot) vs")
            case None
            with False P S T V assms show ?thesis by (auto simp add: handleEditShotImage_def)
          next
            case (Some cur)
            with False P S T V assms(2)
            have "handleEditShotImage_settle (selectedProjectId st) sh (apiKeyStatus st) c i now res
                    (handleEditShotImage_begin cur ins sh st) = Inr st'"
              by (simp add: handleEditShotImage_def)
            with edit_settle_valid [of "handleEditShotImage_begin cur ins sh st"] assms(1)
            show ?thesis by (simp add: edit_begin_valid)
          qed
        qed
      qed
    qed
  qed
qed

lemma select_valid:
  assumes v: "allSelectionsValid (projects st)"
    and m: "\<forall>p\<in>set (projects st). Some (pid p) = selectedProjectId st \<longrightarrow>
              (\<forall>s\<in>set (shots p). sid s = sh \<longrightarrow> variationId \<in> vid ` set (variations s))"
  shows "allSelectionsValid (projects (handleSelectVariation now sh variationId st))"
proof (cases "truthyStr (selectedProjectId st)")
  case False
  with v show ?thesis by (simp add: handleSelectVariation_def)
next
  case True
  define g :: "Shot \<Rightarrow> Shot" where "g = (\<lambda>s. if sid s = sh then s\<lparr>selectedVariationId := Some variationId\<rparr> else s)"
  define h :: "Project \<Rightarrow> Project" where "h = (\<lambda>p. if Some (pid p) \<noteq> selectedProjectId st then p
                            else p\<lparr>updatedAt := now, shots := map g (shots p)\<rparr>)"
  have shot: "selectionValid (g s)"
    if "selectionValid s" "sid s = sh \<longrightarrow> variationId \<in> vid ` set (variations s)" for s
    using that by (simp add: g_def selectionValid_def variations_def)
  have proj: "list_all selectionValid (shots (h p))" if "p \<in> set (projects st)" for p
  proof -
    from v that have a: "\<forall>s\<in>set (shots p). selectionValid s"
      by (simp add: allSelectionsValid_def list_all_iff)
    show ?thesis
    proof (cases "Some (pid p) \<noteq> selectedProjectId st")
      case True
      with a show ?thesis by (simp add: h_def list_all_iff)
    next
      case False
      with m that have "\<forall>s\<in>set (shots p). sid s = sh \<longrightarrow> variationId \<in> vid ` set (variations s)"
        by blast
      with a shot have "\<forall>s\<in>set (shots p). selectionValid (g s)" by blast
      with False show ?thesis by (simp add: h_def list_all_iff)
    qed
  qed
  have "projects (handleSelectVariation now sh variationId st) = map h (projects st)"
    using True by (simp add: handleSelectVariation_def h_def g_def)
  with proj show ?thesis by (simp add: allSelectionsValid_def list_all_iff)
qed

lemma cleanup_valid: "selectionValid (cleanup s) = selectionValid s"
  by (simp add: selectionValid_def variations_def cleanup_def split: option.split)

lemma settings_valid: "selectionValid (s\<lparr>settings := q\<rparr>) = selectionValid s"
  by (simp add: selectionValid_def variations_def split: option.split)

lemma converted_valid:
  "selectionValid (s\<lparr>imageVariations := Some [legacyVariation c i t s0],
                      selectedVariationId := Some i\<rparr>)"
  using legacyVariation_fields [of c i t s0]
  by (simp add: selectionValid_def variations_def)

lemma normalised_valid:
  "selectionValid (s\<lparr>imageVariations := Some (variations s)\<rparr>) = selectionValid s"
  by (simp add: selectionValid_def variations_def split: option.split)

lemma migrateStoredShot_valid:
  assumes "selectionValid s"
  shows "selectionValid (migrateStoredShot c i t s)"
proof (cases "(truthyStr (imageOriginalUrl s) \<or> truthyStr (imageUrl s))
                \<and> variations (s\<lparr>imageVariations := Some (variations s)\<rparr>) = []")
  case True
  then have "migrateStoredShot c i t s
               = cleanup (s\<lparr>imageVariations := Some [legacyVariation c i t s],
                           selectedVariationId := Some i\<rparr>)"
    by (simp add: migrateStoredShot_def Let_def)
  then show ?thesis by (simp add: cleanup_valid converted_valid)
next
  case False
  then have "migrateStoredShot c i t s = cleanup (s\<lparr>imageVariations := Some (variations s)\<rparr>)"
    by (auto simp add: migrateStoredShot_def Let_def)
  with assms show ?thesis by (simp add: cleanup_valid normalised_valid)
qed

lemma backfill_valid:
  "selectionValid (case settings s of
                      None \<Rightarrow> s\<lparr>settings := Some defaultSettings\<rparr>
                    | Some q \<Rightarrow>
                        if \<not> truthyStr (shotType q)
                        then s\<lparr>settings := Some (q\<lparr>shotType := Some ''Medium Shot''\<rparr>)\<rparr>
                        else s) = selectionValid s"
  by (simp add: settings_valid split: option.split)

lemma migrateImportedShot_valid:
  assumes "selectionValid s"
  shows "selectionValid (migrateImportedShot c i t s)"
proof -
  define shot where
    "shot = (case imageVariations s of None \<Rightarrow> s\<lparr>imageVariations := Some []\<rparr> | Some _ \<Rightarrow> s)"
  define shot' where
    "shot' = (if (truthyStr (imageUrl shot) \<or> truthyStr (imageOriginalUrl shot))
                      \<and> variations shot = []
                   then shot\<lparr> imageVariations := Some [legacyVariation c i t shot],
                               selectedVariationId := Some i \<rparr>
                   else shot)"
  have "shot = s\<lparr>imageVariations := Some (variations s)\<rparr>"
    by (simp add: shot_def variations_def split: option.split)
  with assms have a: "selectionValid shot" by (simp add: normalised_valid)
  have b: "selectionValid shot'"
    using a by (simp add: shot'_def converted_valid)
  have "migrateImportedShot c i t s
          = cleanup (case settings shot' of
                      None \<Rightarrow> shot'\<lparr>settings := Some defaultSettings\<rparr>
                    | Some q \<Rightarrow>
                        if \<not> truthyStr (shotType q)
                        then shot'\<lparr>settings := Some (q\<lparr>shotType := Some ''Medium Shot''\<rparr>)\<rparr>
                        else shot')"
    unfolding migrateImportedShot_def Let_def shot'_def shot_def by (rule refl)
  then show ?thesis using b by (simp only: cleanup_valid backfill_valid)
qed

lemma import_valid:
  assumes v: "allSelectionsValid (projects st)"
    and f: "\<forall>f fs. parsed = Some f \<and> fileShots f = Some fs \<longrightarrow> list_all selectionValid fs"
  shows "allSelectionsValid (projects (handleImportJson c u newId now parsed st))"
proof (cases parsed)
  case None
  with v show ?thesis by (simp add: handleImportJson_def)
next
  case (Some pf)
  show ?thesis
  proof (cases "fileShots pf")
    case None
    with Some v show ?thesis by (simp add: handleImportJson_def)
  next
    case (Some fs)
    note F = this
    show ?thesis
    proof (cases "truthyStr (fileId pf)")
      case False
      with \<open>parsed = Some pf\<close> F v show ?thesis by (simp add: handleImportJson_def)
    next
      case True
      from f \<open>parsed = Some pf\<close> F have "list_all selectionValid fs" by blast
      then have "list_all selectionValid
                   (map (\<lambda>(k, s). migrateImportedShot c (u k) now s) (enumerate 0 fs))"
        by (auto simp add: list_all_iff in_set_enumerate_eq intro: migrateImportedShot_valid)
      with True \<open>parsed = Some pf\<close> F v show ?thesis
        by (simp add: import_accepted allSelectionsValid_def)
    qed
  qed
qed

text \<open>
  C8, as the specification states it, fails: select variation stores the id it is given
  without looking at the shot's variations, so an id that names no variation breaks
  the invariant.
\<close>

theorem select_variation_counterexample:
  "allSelectionsValid (projects imagedState)
   \<and> map (map selectedVariationId \<circ> shots)
         (projects (handleSelectVariation 9 ''a'' ''ghost'' imagedState)) = [ [Some ''ghost''] ]
   \<and> map (map (map vid \<circ> variations) \<circ> shots)
         (projects (handleSelectVariation 9 ''a'' ''ghost'' imagedState)) = [ [ [''v1'', ''v2''] ] ]
   \<and> \<not> allSelectionsValid (projects (handleSelectVariation 9 ''a'' ''ghost'' imagedState))"
  by (simp add: imagedState_def imagedProject_def imagedShot_def sampleState_def
        sampleProject_def sampleShot_def sampleAsset_def handleSelectVariation_def
        allSelectionsValid_def selectionValid_def variations_def truthyStr_def)

text \<open>
  C8 (amended): the public operations preserve the invariant. If every shot's selected
  variation is a member of its variations before, this still holds after generate
  image, after edit image, after the migration of a shot, and after import when it
  holds for the shots of the file; after select variation it holds when the id passed
  is the id of a variation of the target shot.
\<close>

theorem selection_membership_preserved:
  assumes "allSelectionsValid (projects st)"
  shows "((\<forall>p\<in>set (projects st). Some (pid p) = selectedProjectId st \<longrightarrow>
             (\<forall>s\<in>set (shots p). sid s = shotId \<longrightarrow> variationId \<in> vid ` set (variations s)))
           \<longrightarrow> allSelectionsValid (projects (handleSelectVariation now shotId variationId st)))
       \<and> (\<forall>st'. handleGenerateImage c u now shotId ref cust r1 r2 st = Inr st'
             \<longrightarrow> allSelectionsValid (projects st'))
       \<and> (\<forall>st'. handleEditShotImage c i now shotId instruction r st = Inr st'
             \<longrightarrow> allSelectionsValid (projects st'))
       \<and> ((\<forall>f fs. parsed = Some f \<and> fileShots f = Some fs \<longrightarrow> list_all selectionValid fs)
             \<longrightarrow> allSelectionsValid (projects (handleImportJson c u newId now parsed st)))
       \<and> (selectionValid s \<longrightarrow>
             selectionValid (migrateStoredShot c i now s)
             \<and> selectionValid (migrateImportedShot c i now s))"
proof (intro conjI impI allI)
  assume "\<forall>p\<in>set (projects st). Some (pid p) = selectedProjectId st \<longrightarrow>
             (\<forall>s\<in>set (shots p). sid s = shotId \<longrightarrow> variationId \<in> vid ` set (variations s))"
  then show "allSelectionsValid (projects (handleSelectVariation now shotId variationId st))"
    by (rule select_valid [OF assms])
next
  fix st' assume "handleGenerateImage c u now shotId ref cust r1 r2 st = Inr st'"
  then show "allSelectionsValid (projects st')" by (rule generate_valid [OF assms])
next
  fix st' assume "handleEditShotImage c i now shotId instruction r st = Inr st'"
  then show "allSelectionsValid (projects st')" by (rule edit_valid [OF assms])
next
  assume "\<forall>f fs. parsed = Some f \<and> fileShots f = Some fs \<longrightarrow> list_all selectionValid fs"
  then show "allSelectionsValid (projects (handleImportJson c u newId now parsed st))"
    by (rule import_valid [OF assms])
next
  assume "selectionValid s"
  then show "selectionValid (migrateStoredShot c i now s)" by (rule migrateStoredShot_valid)
next
  assume "selectionValid s"
  then show "selectionValid (migrateImportedShot c i now s)" by (rule migrateImportedShot_valid)
qed

theorem selection_membership_preserved_witness:
  "allSelectionsValid (projects imagedState)
   \<and> allSelectionsValid (projects (handleSelectVariation 9 ''a'' ''v2'' imagedState))
   \<and> (case handleGenerateImage id sampleUuid 9 ''a'' None None
              (Fulfilled ''data:image/png;base64,TWFu'') (Rejected (Some ''overloaded''))
              imagedState of
         Inl e \<Rightarrow> False | Inr st' \<Rightarrow> allSelectionsValid (projects st'))
   \<and> (case handleEditShotImage id ''n0'' 9 ''a'' ''make it rain''
              (Fulfilled ''data:image/png;base64,TWE='') imagedState of
         Inl e \<Rightarrow> False | Inr st' \<Rightarrow> allSelectionsValid (projects st'))
   \<and> allSelectionsValid (projects (handleImportJson id sampleUuid ''new'' 9 (Some legacyFile) imagedState))
   \<and> selectionValid (migrateImportedShot id ''n0'' 9 convertedShot)"
proof -
  have v: "allSelectionsValid (projects imagedState)"
    by (simp add: imagedState_def imagedProject_def imagedShot_def sampleState_def sampleProject_def sampleShot_def sampleAsset_def
          allSelectionsValid_def selectionValid_def variations_def)
  note t = selection_membership_preserved [OF v, where shotId = "''a''" and variationId = "''v2''"
      and now = 9 and c = id and u = sampleUuid and ref = None and cust = None
      and ?r1.0 = "Fulfilled ''data:image/png;base64,TWFu''"
      and ?r2.0 = "Rejected (Some ''overloaded'')"
      and i = "''n0''" and instruction = "''make it rain''"
      and r = "Fulfilled ''data:image/png;base64,TWE=''"
      and parsed = "Some legacyFile" and newId = "''new''" and s = convertedShot]
  have m: "\<forall>p\<in>set (projects imagedState). Some (pid p) = selectedProjectId imagedState \<longrightarrow>
             (\<forall>s\<in>set (shots p). sid s = ''a'' \<longrightarrow> ''v2'' \<in> vid ` set (variations s))"
    by (simp add: imagedState_def imagedProject_def imagedShot_def sampleState_def sampleProject_def sampleShot_def sampleAsset_def
          variations_def)
  from t m have 1: "allSelectionsValid (projects (handleSelectVariation 9 ''a'' ''v2'' imagedState))"
    by blast
  have "\<exists>st'. handleGenerateImage id sampleUuid 9 ''a'' None None
              (Fulfilled ''data:image/png;base64,TWFu'') (Rejected (Some ''overloaded''))
              imagedState = Inr st'"
    by (simp add: imagedState_def imagedProject_def imagedShot_def sampleState_def sampleProject_def sampleShot_def
          handleGenerateImage_def truthyStr_def resolveReference_def
          handleGenerateImage_settle_def successfulImages_def addVariations_def prependTo_def
          handleGenerateImage_begin_def setGenerating_def Let_def)
  with t have 2: "case handleGenerateImage id sampleUuid 9 ''a'' None None
              (Fulfilled ''data:image/png;base64,TWFu'') (Rejected (Some ''overloaded''))
              imagedState of
         Inl e \<Rightarrow> False | Inr st' \<Rightarrow> allSelectionsValid (projects st')"
    by auto
  have "\<exists>st'. handleEditShotImage id ''n0'' 9 ''a'' ''make it rain''
              (Fulfilled ''data:image/png;base64,TWE='') imagedState = Inr st'"
    by (simp add: imagedState_def imagedProject_def imagedShot_def sampleState_def sampleProject_def sampleShot_def sampleAsset_def
          handleEditShotImage_def truthyStr_def
          handleEditShotImage_settle_def addVariations_def prependTo_def
          handleEditShotImage_begin_def setGenerating_def Let_def)
  with t have 3: "case handleEditShotImage id ''n0'' 9 ''a'' ''make it rain''
              (Fulfilled ''data:image/png;base64,TWE='') imagedState of
         Inl e \<Rightarrow> False | Inr st' \<Rightarrow> allSelectionsValid (projects st')"
    by auto
  have f: "\<forall>f fs. Some legacyFile = Some f \<and> fileShots f = Some fs \<longrightarrow> list_all selectionValid fs"
    by (simp add: legacyFile_def legacyShot_def sampleShot_def selectionValid_def)
  from t f have 4: "allSelectionsValid (projects (handleImportJson id sampleUuid ''new'' 9 (Some legacyFile) imagedState))"
    by blast
  have "selectionValid convertedShot"
    by (simp add: convertedShot_def sampleShot_def sampleAsset_def selectionValid_def variations_def)
  with t have 5: "selectionValid (migrateImportedShot id ''n0'' 9 convertedShot)" by blast
  from v 1 2 3 4 5 show ?thesis by blast
qed

subsection \<open>The dirty marker\<close>

lemma bumped_refl: "bumped now ps ps"
  by (simp add: bumped_def list_all2_same)

lemma bumped_map:
  assumes "\<And>p. f p = p \<or> updatedAt (f p) = now"
  shows "bumped now ps (map f ps)"
  using assms by (simp add: bumped_def list_all2_map2 list_all2_same)

lemma bumped_select: "bumped now (projects st) (projects (handleSelectVariation now sh v st))"
  by (simp add: handleSelectVariation_def bumped_refl bumped_map)

lemma bumped_deleteProject: "bumped now (projects st) (projects (handleDeleteProject now i st))"
  by (simp add: handleDeleteProject_def Let_def bumped_map)

lemma bumped_restoreProject: "bumped now (projects st) (projects (handleRestoreProject now i st))"
  by (simp add: handleRestoreProject_def bumped_map)

lemma bumped_saveInfo: "bumped now (projects st) (projects (handleSaveProjectInfo now t i st))"
  by (simp add: handleSaveProjectInfo_def bumped_refl bumped_map)

lemma bumped_visualPrompt: "bumped now (projects st) (projects (handleUpdateVisualPrompt now sh x st))"
  by (simp add: handleUpdateVisualPrompt_def bumped_refl bumped_map)

lemma bumped_settings: "bumped now (projects st) (projects (handleUpdateShotSettings now sh x st))"
  by (simp add: handleUpdateShotSettings_def bumped_refl bumped_map)

lemma addShotAfter_bump: "addShotAfter newId now prev p = p \<or> updatedAt (addShotAfter newId now prev p) = now"
  by (simp add: addShotAfter_def Let_def split: option.split)

lemma trashShot_bump: "trashShot now sh p = p \<or> updatedAt (trashShot now sh p) = now"
  by (simp add: trashShot_def Let_def split: option.split)

lemma restoreShot_bump: "restoreShot now sh p = p \<or> updatedAt (restoreShot now sh p) = now"
  by (simp add: restoreShot_def Let_def split: option.split)

lemma bumped_addShot: "bumped now (projects st) (projects (handleAddShotAfter newId now prev st))"
proof (cases "truthyStr (selectedProjectId st)")
  case True
  then have "projects (handleAddShotAfter newId now prev st)
      = map (\<lambda>project. if Some (pid project) \<noteq> selectedProjectId st then project
                        else addShotAfter newId now prev project) (projects st)"
    by (simp add: handleAddShotAfter_def)
  then show ?thesis using addShotAfter_bump by (simp add: bumped_map)
next
  case False
  then show ?thesis by (simp add: handleAddShotAfter_def bumped_refl)
qed

lemma bumped_trashShot: "bumped now (projects st) (projects (handleConfirmDeleteShot now st))"
proof (cases "\<not> truthyStr (pendingShotDeletionId st) \<or> \<not> truthyStr (selectedProjectId st)")
  case False
  then have "projects (handleConfirmDeleteShot now st)
      = map (\<lambda>project. if Some (pid project) \<noteq> selectedProjectId st then project
                        else trashShot now (the (pendingShotDeletionId st)) project) (projects st)"
    by (simp add: handleConfirmDeleteShot_def)
  then show ?thesis using trashShot_bump by (simp add: bumped_map)
next
  case True
  then show ?thesis by (auto simp add: handleConfirmDeleteShot_def bumped_refl)
qed

lemma bumped_restoreShot: "bumped now (projects st) (projects (handleRestoreShot now sh st))"
proof (cases "truthyStr (selectedProjectId st)")
  case True
  then have "projects (handleRestoreShot now sh st)
      = map (\<lambda>project. if Some (pid project) \<noteq> selectedProjectId st then project
                        else restoreShot now sh project) (projects st)"
    by (simp add: handleRestoreShot_def)
  then show ?thesis using restoreShot_bump by (simp add: bumped_map)
next
  case False
  then show ?thesis by (simp add: handleRestoreShot_def bumped_refl)
qed

lemma bumped_deleteShot: "bumped now (projects st) (projects (handlePermanentlyDeleteShot now sh st))"
  by (simp add: handlePermanentlyDeleteShot_def bumped_refl bumped_map)

lemma bumped_emptyTrash: "bumped now (projects st) (projects (handleEmptyTrash now st))"
  by (simp add: handleEmptyTrash_def bumped_refl bumped_map)

lemma bumped_describe: "bumped now ps (describeShot sel sh now d ps)"
  by (simp add: describeShot_def bumped_map)

lemma bumped_addVariations:
  assumes "addVariations sel sh now nv ps = Inr ps'"
  shows "bumped now ps ps'"
proof -
  let ?g = "\<lambda>s. if sid s \<noteq> sh then Inr s else prependTo nv s"
  let ?f = "\<lambda>p. if Some (pid p) \<noteq> sel then Inr p
                else (case mapE ?g (shots p) of
                        Inl e \<Rightarrow> Inl e
                      | Inr ss \<Rightarrow> Inr (p\<lparr>updatedAt := now, shots := ss\<rparr>))"
  have step: "p' = p \<or> updatedAt p' = now" if "?f p = Inr p'" for p p'
  proof (cases "Some (pid p) \<noteq> sel")
    case True
    with that show ?thesis by simp
  next
    case False
    with that obtain ss where "p\<lparr>updatedAt := now, shots := ss\<rparr> = p'"
      by (cases "mapE ?g (shots p)") simp_all
    then have "updatedAt p' = now" by (metis Project.select_convs(7) Project.surjective Project.update_convs(4) Project.update_convs(7))
    then show ?thesis by simp
  qed
  from assms have "list_all2 (\<lambda>p p'. ?f p = Inr p') ps ps'"
    unfolding addVariations_def by (rule mapE_Inr)
  then have "list_all2 (\<lambda>p p'. p' = p \<or> updatedAt p' = now) ps ps'"
    by (rule list_all2_mono) (use step in blast)
  then show ?thesis by (simp add: bumped_def)
qed

lemma setGenerating_updatedAt: "map updatedAt (setGenerating sel sh b ps) = map updatedAt ps"
  by (simp add: setGenerating_def)

lemma promptFailed_updatedAt: "map updatedAt (promptFailed sel sh ps) = map updatedAt ps"
  by (simp add: promptFailed_def)

text \<open>
  The success update of a prompt regeneration overwrites \<open>visualPrompt\<close> and does not
  write \<open>updatedAt\<close> either, where \<^verbatim>\<open>handleUpdateVisualPrompt\<close> does.
\<close>

lemma promptRegenerated_updatedAt:
  "map updatedAt (promptRegenerated sel sh x ps) = map updatedAt ps"
  by (simp add: promptRegenerated_def)

lemma created_project:
  "projects (handleCreateProject_settle capturedIdea cs u newId now (Fulfilled sd) st) \<noteq> []
   \<and> updatedAt (hd (projects (handleCreateProject_settle capturedIdea cs u newId now (Fulfilled sd) st))) = now
   \<and> tl (projects (handleCreateProject_settle capturedIdea cs u newId now (Fulfilled sd) st)) = projects st"
  by (simp add: handleCreateProject_settle_def Let_def)

text \<open>
  C2, as the specification states it, fails: marking a shot as generating when an
  image is requested changes the project and leaves its \<open>updatedAt\<close> as it was.
\<close>

theorem flag_marking_not_bumped_counterexample:
  "projects (handleGenerateImage_begin imagedShot None ''a'' imagedState) \<noteq> projects imagedState
   \<and> map (map isGeneratingImage \<circ> shots) (projects imagedState) = [ [False] ]
   \<and> map (map isGeneratingImage \<circ> shots)
         (projects (handleGenerateImage_begin imagedShot None ''a'' imagedState)) = [ [True] ]
   \<and> map updatedAt (projects imagedState) = [1]
   \<and> map updatedAt (projects (handleGenerateImage_begin imagedShot None ''a'' imagedState)) = [1]
   \<and> \<not> bumped 9 (projects imagedState)
          (projects (handleGenerateImage_begin imagedShot None ''a'' imagedState))"
proof -
  have a: "map (map isGeneratingImage \<circ> shots) (projects imagedState) = [ [False] ]"
    by (simp add: imagedState_def imagedProject_def imagedShot_def sampleState_def sampleProject_def sampleShot_def)
  have b: "map (map isGeneratingImage \<circ> shots)
         (projects (handleGenerateImage_begin imagedShot None ''a'' imagedState)) = [ [True] ]"
    by (simp add: handleGenerateImage_begin_def setGenerating_def
          imagedState_def imagedProject_def imagedShot_def sampleState_def sampleProject_def sampleShot_def)
  have c: "map updatedAt (projects imagedState) = [1]"
    by (simp add: imagedState_def imagedProject_def imagedShot_def sampleState_def sampleProject_def)
  have d: "map updatedAt (projects (handleGenerateImage_begin imagedShot None ''a'' imagedState)) = [1]"
    by (simp add: handleGenerateImage_begin_def setGenerating_def
          imagedState_def imagedProject_def imagedShot_def sampleState_def sampleProject_def)
  from a b have e: "projects (handleGenerateImage_begin imagedShot None ''a'' imagedState)
                      \<noteq> projects imagedState"
    by auto
  obtain p where p: "projects imagedState = [p]" "updatedAt p = 1"
    using c by auto
  obtain q where q: "projects (handleGenerateImage_begin imagedShot None ''a'' imagedState) = [q]"
      "updatedAt q = 1"
    using d by auto
  from e p q have "q \<noteq> p" by simp
  with p q have f: "\<not> bumped 9 (projects imagedState)
          (projects (handleGenerateImage_begin imagedShot None ''a'' imagedState))"
    by (simp add: bumped_def)
  from a b c d e f show ?thesis by (intro conjI)
qed

text \<open>
  C2 (amended): each of the following transformations sets the \<open>updatedAt\<close> of every
  project it changes to the current time: select variation, trash and restore project,
  save project info, update visual prompt, update shot settings, add shot, trash shot,
  restore shot, delete shot for good, empty the shot trash, the description edit that
  starts a prompt regeneration, and the success update of generate image and edit
  image; a created project starts with the current time. The transformations that only
  set or clear \<open>isGeneratingImage\<close>, and the one that only clears \<open>isUpdatingPrompt\<close>
  after a failure, leave every \<open>updatedAt\<close> unchanged.
\<close>

theorem updatedAt_bumped:
  "bumped now (projects st) (projects (handleSelectVariation now shotId variationId st))
   \<and> bumped now (projects st) (projects (handleDeleteProject now i st))
   \<and> bumped now (projects st) (projects (handleRestoreProject now i st))
   \<and> bumped now (projects st) (projects (handleSaveProjectInfo now editedTitle editedIdea st))
   \<and> bumped now (projects st) (projects (handleUpdateVisualPrompt now shotId newPrompt st))
   \<and> bumped now (projects st) (projects (handleUpdateShotSettings now shotId newSettings st))
   \<and> bumped now (projects st) (projects (handleAddShotAfter newId now shotId st))
   \<and> bumped now (projects st) (projects (handleConfirmDeleteShot now st))
   \<and> bumped now (projects st) (projects (handleRestoreShot now shotId st))
   \<and> bumped now (projects st) (projects (handlePermanentlyDeleteShot now shotId st))
   \<and> bumped now (projects st) (projects (handleEmptyTrash now st))
   \<and> bumped now (projects st) (describeShot sel shotId now newDescription (projects st))
   \<and> (\<forall>ps'. addVariations sel shotId now newVariations (projects st) = Inr ps'
          \<longrightarrow> bumped now (projects st) ps')
   \<and> updatedAt (hd (projects (handleCreateProject_settle capturedIdea cs u newId now
                                (Fulfilled shotsData) st))) = now
   \<and> tl (projects (handleCreateProject_settle capturedIdea cs u newId now
                      (Fulfilled shotsData) st)) = projects st
   \<and> map updatedAt (setGenerating sel shotId flag (projects st)) = map updatedAt (projects st)
   \<and> map updatedAt (promptFailed sel shotId (projects st)) = map updatedAt (projects st)"
proof -
  have av: "\<forall>ps'. addVariations sel shotId now newVariations (projects st) = Inr ps'
          \<longrightarrow> bumped now (projects st) ps'"
    using bumped_addVariations by blast
  note cp = created_project [of capturedIdea cs u newId now shotsData st]
  show ?thesis
    by (intro conjI bumped_select bumped_deleteProject bumped_restoreProject bumped_saveInfo
          bumped_visualPrompt bumped_settings bumped_addShot bumped_trashShot bumped_restoreShot
          bumped_deleteShot bumped_emptyTrash bumped_describe av
          cp [THEN conjunct2, THEN conjunct1] cp [THEN conjunct2, THEN conjunct2]
          setGenerating_updatedAt promptFailed_updatedAt)
qed

theorem updatedAt_bumped_witness:
  "(case addVariations (Some ''p1'') ''a'' 9 [sampleAsset ''v3''] (projects imagedState) of
      Inl e \<Rightarrow> False
    | Inr ps' \<Rightarrow> bumped 9 (projects imagedState) ps' \<and> map updatedAt ps' = [9])
   \<and> bumped 9 (projects imagedState) (projects (handleSelectVariation 9 ''a'' ''v2'' imagedState))
   \<and> map updatedAt (projects (handleSelectVariation 9 ''a'' ''v2'' imagedState)) = [9]
   \<and> map updatedAt (setGenerating (Some ''p1'') ''a'' True (projects imagedState)) = [1]"
proof -
  note t = updatedAt_bumped [where st = imagedState and now = 9 and shotId = "''a''"
      and variationId = "''v2''" and sel = "Some ''p1''" and newVariations = "[sampleAsset ''v3'']"
      and flag = True and i = "''p1''" and editedTitle = "''Night''" and editedIdea = "''a heist''"
      and newPrompt = "''rain''" and newSettings = defaultSettings and newId = "''n0''"
      and newDescription = "''the vault''" and capturedIdea = "''a heist''" and cs = active
      and u = sampleUuid and shotsData = "[]"]
  have ps: "projects imagedState = [imagedProject]"
    by (simp add: imagedState_def sampleState_def)
  have up: "updatedAt imagedProject = 1" "pid imagedProject = ''p1''" "shots imagedProject = [imagedShot]"
    by (simp_all add: imagedProject_def sampleProject_def)
  have iv: "imageVariations imagedShot = Some [sampleAsset ''v1'', sampleAsset ''v2'']"
    "sid imagedShot = ''a''"
    by (simp_all add: imagedShot_def sampleShot_def)
  have "\<forall>p\<in>set (projects imagedState). Some (pid p) = Some ''p1'' \<longrightarrow>
          (\<forall>s\<in>set (shots p). sid s = ''a'' \<longrightarrow> imageVariations s \<noteq> None)"
    by (simp add: ps up iv)
  from addVariations_total [OF this, of 9 "sampleAsset ''v3''" "[]"]
  obtain ps' where r: "addVariations (Some ''p1'') ''a'' 9 [sampleAsset ''v3''] (projects imagedState) = Inr ps'"
    and u: "map updatedAt ps' = [9]"
    by (simp add: ps up)
  from t r have b: "bumped 9 (projects imagedState) ps'" by blast
  have 1: "case addVariations (Some ''p1'') ''a'' 9 [sampleAsset ''v3''] (projects imagedState) of
      Inl e \<Rightarrow> False
    | Inr ps' \<Rightarrow> bumped 9 (projects imagedState) ps' \<and> map updatedAt ps' = [9]"
    using b u by (simp add: r)
  from t have 2: "bumped 9 (projects imagedState) (projects (handleSelectVariation 9 ''a'' ''v2'' imagedState))"
    by blast
  have 3: "map updatedAt (projects (handleSelectVariation 9 ''a'' ''v2'' imagedState)) = [9]"
    by (simp add: handleSelectVariation_def imagedState_def sampleState_def truthyStr_def up)
  from t have 4: "map updatedAt (setGenerating (Some ''p1'') ''a'' True (projects imagedState)) = [1]"
    by (simp add: ps up)
  from 1 2 3 4 show ?thesis by (intro conjI)
qed

end
